theory Spec2Isabelle
  imports Complex_Main
begin

section \<open>Values of the program\<close>

text \<open>
  The backend (\<^verbatim>\<open>main.py\<close>) is dynamically typed: what \<^verbatim>\<open>json.loads\<close> returns, what
  a job's \<^verbatim>\<open>result\<close> holds and what an endpoint answers are all JSON-shaped Python
  values. They are modelled by one datatype. A Python \<^verbatim>\<open>dict\<close> keeps its insertion
  order, so an object is an association list; \<^verbatim>\<open>None\<close> is \<open>JNull\<close>.
\<close>

datatype pyfloat = Finite rat | Infinity | NegInfinity | NaN

datatype json =
    JNull
  | JBool bool
  | JInt int
  | JFloat pyfloat
  | JStr string
  | JArr "json list"
  | JObj "(string \<times> json) list"

text \<open>
  An exception is the value it is raised with; \<^verbatim>\<open>str(e)\<close> is its message.
\<close>

datatype error = Exception string

fun str :: "error \<Rightarrow> string" where
  "str (Exception msg) = msg"

text \<open>
  What a request is answered with when it is not answered with a body:
  \<^verbatim>\<open>HTTPException(status_code, detail)\<close> raised by an endpoint, the framework's answer to a
  request whose parameters do not validate (status 422), and the framework's answer to
  any other exception that leaves an endpoint (status 500).
\<close>

datatype http_error =
    HTTPException nat string
  | RequestValidationError
  | InternalServerError

fun status_code :: "http_error \<Rightarrow> nat" where
  "status_code (HTTPException code detail) = code"
| "status_code RequestValidationError = 422"
| "status_code InternalServerError = 500"

text \<open>Python's truth value of a decoded JSON value, as tested by \<^verbatim>\<open>not x\<close>.\<close>

fun truthy :: "json \<Rightarrow> bool" where
  "truthy JNull = False"
| "truthy (JBool b) = b"
| "truthy (JInt i) = (i \<noteq> 0)"
| "truthy (JFloat f) = (f \<noteq> Finite 0)"
| "truthy (JStr s) = (s \<noteq> [])"
| "truthy (JArr xs) = (xs \<noteq> [])"
| "truthy (JObj kvs) = (kvs \<noteq> [])"

fun type_name :: "json \<Rightarrow> string" where
  "type_name JNull = ''NoneType''"
| "type_name (JBool b) = ''bool''"
| "type_name (JInt i) = ''int''"
| "type_name (JFloat f) = ''float''"
| "type_name (JStr s) = ''str''"
| "type_name (JArr xs) = ''list''"
| "type_name (JObj kvs) = ''dict''"

definition AttributeError :: "json \<Rightarrow> string \<Rightarrow> error" where
  "AttributeError v attr =
     Exception ([CHR 0x27] @ type_name v @ [CHR 0x27] @ '' object has no attribute '' @
                [CHR 0x27] @ attr @ [CHR 0x27])"

text \<open>
  \<^verbatim>\<open>repr\<close> of a string whose characters are code points below 256: in single quotes,
  or in double quotes when the string has a single quote and no double quote; the
  quote, the backslash, tab, newline and carriage return escaped with a backslash, the
  other characters that are not printable (below 0x20, 0x7f to 0xa0, 0xad) written
  \<^verbatim>\<open>\xhh\<close>. \<^verbatim>\<open>str(KeyError(key))\<close> is the \<^verbatim>\<open>repr\<close> of the key.
\<close>

definition hex_digit :: "nat \<Rightarrow> char" where
  "hex_digit n = ''0123456789abcdef'' ! (n mod 16)"

definition printable :: "char \<Rightarrow> bool" where
  "printable c \<longleftrightarrow>
     (let n = (of_char c :: nat)
      in \<not> (n < 32 \<or> n = 127 \<or> (128 \<le> n \<and> n \<le> 160) \<or> n = 173))"

definition repr_char :: "char \<Rightarrow> char \<Rightarrow> string" where
  "repr_char quote c =
     (if c = quote \<or> c = CHR 0x5C then [CHR 0x5C, c]
      else if c = CHR 0x09 then [CHR 0x5C, CHR ''t'']
      else if c = CHR 0x0A then [CHR 0x5C, CHR ''n'']
      else if c = CHR 0x0D then [CHR 0x5C, CHR ''r'']
      else if printable c then [c]
      else [CHR 0x5C, CHR ''x'', hex_digit (of_char c div 16), hex_digit (of_char c)])"

definition repr :: "string \<Rightarrow> string" where
  "repr s =
     (let quote = (if CHR 0x27 \<in> set s \<and> CHR 0x22 \<notin> set s then CHR 0x22 else CHR 0x27)
      in [quote] @ concat (map (repr_char quote) s) @ [quote])"

definition KeyError :: "string \<Rightarrow> error" where
  "KeyError key = Exception (repr key)"

text \<open>\<^verbatim>\<open>d.get(key)\<close> on a dict: the value, \<^verbatim>\<open>None\<close> for a missing key.\<close>

definition dict_get :: "(string \<times> json) list \<Rightarrow> string \<Rightarrow> json" where
  "dict_get kvs key = (case map_of kvs key of Some v \<Rightarrow> v | None \<Rightarrow> JNull)"

text \<open>\<^verbatim>\<open>d[key] = v\<close> on a dict: an existing key keeps its place, a new key goes last.\<close>

fun dict_set :: "string \<Rightarrow> json \<Rightarrow> (string \<times> json) list \<Rightarrow> (string \<times> json) list" where
  "dict_set key v [] = [(key, v)]"
| "dict_set key v ((k, w) # kvs) =
     (if k = key then (key, v) # kvs else (k, w) # dict_set key v kvs)"

section \<open>Helpers\<close>

subsection \<open>Text Generation Client: \<^verbatim>\<open>generate_with_gemini\<close>\<close>

text \<open>
  \<^verbatim>\<open>
  async def generate_with_gemini(prompt: str) -> str:
      try:
          model = genai.GenerativeModel("gemini-2.5-flash")
          response = model.generate_content(prompt)
          return response.text
      except Exception as e:
          print(f"Error generating content with Gemini: {e}")
          return "Error generating content"
  \<close>
  The three lines of the \<^verbatim>\<open>try\<close> body are the external service; the parameter
  \<open>gemini\<close> is what they do for a prompt: raise (\<open>Inl\<close>) or produce the text (\<open>Inr\<close>).
  The function's own result is kept in \<open>error + string\<close> so that "does not raise" is a
  statement about it.
\<close>

definition generate_with_gemini :: "(string \<Rightarrow> error + string) \<Rightarrow> string \<Rightarrow> error + string" where
  "generate_with_gemini gemini prompt =
     (case gemini prompt of
        Inr text \<Rightarrow> Inr text
      | Inl e \<Rightarrow> Inr ''Error generating content'')"

subsection \<open>Structured Extractor: \<^verbatim>\<open>extract_json\<close>\<close>

text \<open>
  \<^verbatim>\<open>re.search(r"{.*}", text, re.DOTALL)\<close>. The pattern is a sequence of three items: the
  literal \<^verbatim>\<open>{\<close>, the greedy \<^verbatim>\<open>.*\<close> (with \<^verbatim>\<open>DOTALL\<close> the dot matches every character) and
  the literal \<^verbatim>\<open>}\<close>. \<open>match_at\<close> is the backtracking matcher anchored at the start of its
  input: a greedy star first tries to take one more character and gives it back only
  when the rest of the pattern fails. \<open>re_search\<close> tries every start from the left.
\<close>

datatype re_item = Lit char | AnyStar

fun match_at :: "re_item list \<Rightarrow> string \<Rightarrow> string option" where
  "match_at [] s = Some []"
| "match_at (Lit c # ps) [] = None"
| "match_at (Lit c # ps) (x # xs) =
     (if x = c then map_option ((#) x) (match_at ps xs) else None)"
| "match_at (AnyStar # ps) [] = match_at ps []"
| "match_at (AnyStar # ps) (x # xs) =
     (case match_at (AnyStar # ps) xs of
        Some m \<Rightarrow> Some (x # m)
      | None \<Rightarrow> match_at ps (x # xs))"

fun re_search :: "re_item list \<Rightarrow> string \<Rightarrow> string option" where
  "re_search ps [] = match_at ps []"
| "re_search ps (x # xs) =
     (case match_at ps (x # xs) of
        Some m \<Rightarrow> Some m
      | None \<Rightarrow> re_search ps xs)"

definition brace_re :: "re_item list" where
  "brace_re = [Lit CHR ''{'', AnyStar, Lit CHR ''}'']"

text \<open>
  \<^verbatim>\<open>
  def extract_json(text: str):
      try:
          match = re.search(r"{.*}", text, re.DOTALL)
          if match:
              return json.loads(match.group())
      except Exception as e:
          print(f"JSON parsing error: {e}")
      return {}
  \<close>
  \<^verbatim>\<open>json.loads\<close> is the standard library's decoder, the parameter \<open>loads\<close>: it raises
  (\<open>Inl\<close>) on text that is not JSON and returns the decoded value otherwise.
\<close>

definition extract_json :: "(string \<Rightarrow> error + json) \<Rightarrow> string \<Rightarrow> error + json" where
  "extract_json loads text =
     (case re_search brace_re text of
        Some m \<Rightarrow>
          (case loads m of
             Inr v \<Rightarrow> Inr v
           | Inl e \<Rightarrow> Inr (JObj []))
      | None \<Rightarrow> Inr (JObj []))"

subsection \<open>Narration Synthesizer: \<^verbatim>\<open>save_tts_mp3\<close>\<close>

text \<open>
  \<^verbatim>\<open>
  GENERATED_DIR = "generated"

  def save_tts_mp3(text: str, filename: str) -> str:
      path = os.path.join(GENERATED_DIR, f"{filename}.mp3")
      tts = gTTS(text=text, lang="en", slow=False)
      tts.save(path)
      return path
  \<close>
  \<open>path_join\<close> is \<^verbatim>\<open>os.path.join\<close> of two components on a POSIX system, for a first
  component that is not empty and does not end in a slash. The parameter \<open>gtts\<close> is the
  speech library: what building the \<^verbatim>\<open>gTTS\<close> object for a text and saving it to a path
  does, raise or succeed.
\<close>

definition GENERATED_DIR :: string where
  "GENERATED_DIR = ''generated''"

definition path_join :: "string \<Rightarrow> string \<Rightarrow> string" where
  "path_join a b =
     (case b of
        [] \<Rightarrow> a @ ''/''
      | c # cs \<Rightarrow> if c = CHR ''/'' then b else a @ ''/'' @ b)"

definition save_tts_mp3 ::
    "(string \<Rightarrow> string \<Rightarrow> error + unit) \<Rightarrow> string \<Rightarrow> string \<Rightarrow> error + string" where
  "save_tts_mp3 gtts text filename =
     (let path = path_join GENERATED_DIR (filename @ ''.mp3'')
      in case gtts text path of
           Inl e \<Rightarrow> Inl e
         | Inr u \<Rightarrow> Inr path)"

section \<open>Jobs Store\<close>

text \<open>
  \<^verbatim>\<open>JOBS = {}\<close>: the registry maps a job id to an entry
  \<^verbatim>\<open>{"status": ..., "result": ...}\<close>. The program only ever stores the four status
  strings below; \<open>status_str\<close> gives the string back.
\<close>

datatype status = Queued | Processing | Done | Error

fun status_str :: "status \<Rightarrow> string" where
  "status_str Queued = ''queued''"
| "status_str Processing = ''processing''"
| "status_str Done = ''done''"
| "status_str Error = ''error''"

record job =
  status :: status
  result :: json

type_synonym registry = "string \<rightharpoonup> job"

text \<open>
  \<^verbatim>\<open>JOBS[job_id]["status"] = st\<close> and \<^verbatim>\<open>JOBS[job_id]["result"] = r\<close>: each raises
  \<^verbatim>\<open>KeyError\<close> for an id the registry does not hold and writes one field otherwise.
\<close>

definition set_status :: "string \<Rightarrow> status \<Rightarrow> registry \<Rightarrow> error + registry" where
  "set_status job_id st J =
     (case J job_id of
        None \<Rightarrow> Inl (KeyError job_id)
      | Some entry \<Rightarrow> Inr (J(job_id \<mapsto> entry\<lparr>status := st\<rparr>)))"

definition set_result :: "string \<Rightarrow> json \<Rightarrow> registry \<Rightarrow> error + registry" where
  "set_result job_id r J =
     (case J job_id of
        None \<Rightarrow> Inl (KeyError job_id)
      | Some entry \<Rightarrow> Inr (J(job_id \<mapsto> entry\<lparr>result := r\<rparr>)))"

section \<open>Job Processor\<close>

subsection \<open>The prompts\<close>

definition nl :: string where
  "nl = [CHR 0x0A]"

definition summary_prompt :: "string \<Rightarrow> string" where
  "summary_prompt content = ''Summarize in simple terms:'' @ nl @ nl @ content"

definition graph_prompt :: "string \<Rightarrow> string" where
  \<open>graph_prompt content = concat
     [nl,
      ''Extract the key concepts from the following text and return a JSON object formatted as a mind map.'', nl,
      ''Format strictly as:'', nl,
      ''{'', nl,
      ''  "nodes": [{"id": "n1", "label": "concept1"}, ...],'', nl,
      ''  "edges": [{"from": "n1", "to": "n2"}, ...]'', nl,
      ''}'', nl,
      ''Text:'', nl,
      content, nl]\<close>

definition quiz_prompt :: "string \<Rightarrow> string" where
  \<open>quiz_prompt content = concat
     [nl,
      ''Generate educational content from the following text. Return a JSON object with exactly:'', nl,
      ''{'', nl,
      ''  "mcq": ['', nl,
      ''    {'', nl,
      ''      "question": "Your question here",'', nl,
      ''      "options": ["A)", "B)", "C)", "D)"],'', nl,
      ''      "answer": "Correct option letter"'', nl,
      ''    },'', nl,
      ''    ...'', nl,
      ''  ],'', nl,
      ''  "flashcards": ['', nl,
      ''    {'', nl,
      ''      "front": "Question front text",'', nl,
      ''      "back": "Answer back text"'', nl,
      ''    },'', nl,
      ''    ...'', nl,
      ''  ]'', nl,
      ''}'', nl,
      ''Make sure all MCQs have 4 options labeled A, B, C, D and include 2 flashcards.'', nl,
      ''Text:'', nl,
      content, nl]\<close>

subsection \<open>Normalization of the extracted objects\<close>

text \<open>
  \<^verbatim>\<open>
  graph_json = extract_json(graph_res)
  if not graph_json.get("nodes"):
      graph_json = {"nodes": [{"id": "n1", "label": "Key concepts"}], "edges": []}
  \<close>
  The first thing done to the extracted value is \<^verbatim>\<open>.get\<close>, which only a dict has.
\<close>

definition fallback_graph :: json where
  "fallback_graph =
     JObj [(''nodes'', JArr [JObj [(''id'', JStr ''n1''), (''label'', JStr ''Key concepts'')]]),
           (''edges'', JArr [])]"

fun normalize_graph :: "json \<Rightarrow> error + json" where
  "normalize_graph (JObj kvs) =
     Inr (if \<not> truthy (dict_get kvs ''nodes'') then fallback_graph else JObj kvs)"
| "normalize_graph v = Inl (AttributeError v ''get'')"

text \<open>
  \<^verbatim>\<open>
  quiz_json = extract_json(quiz_res)
  if not quiz_json.get("mcq"):
      quiz_json["mcq"] = []
  if not quiz_json.get("flashcards"):
      quiz_json["flashcards"] = []
  \<close>
\<close>

fun normalize_quiz :: "json \<Rightarrow> error + json" where
  "normalize_quiz (JObj kvs) =
     (let kvs1 = (if \<not> truthy (dict_get kvs ''mcq'')
                  then dict_set ''mcq'' (JArr []) kvs else kvs);
          kvs2 = (if \<not> truthy (dict_get kvs1 ''flashcards'')
                  then dict_set ''flashcards'' (JArr []) kvs1 else kvs1)
      in Inr (JObj kvs2))"
| "normalize_quiz v = Inl (AttributeError v ''get'')"

subsection \<open>\<^verbatim>\<open>process_job\<close>\<close>

text \<open>
  \<^verbatim>\<open>process_job\<close> is a coroutine with one suspension point, the
  \<^verbatim>\<open>await asyncio.gather(...)\<close> of the three generation tasks it creates. The event loop is
  single-threaded: between two suspension points a coroutine runs without any other code
  of the process running. So a run of \<^verbatim>\<open>process_job\<close> is two uninterrupted segments,
  \<open>process_job_start\<close> (up to the \<^verbatim>\<open>await\<close>) and \<open>process_job_resume\<close> (after it), and
  \<^verbatim>\<open>generate_with_gemini\<close>, which has no \<^verbatim>\<open>await\<close> of its own, runs in one piece too.

  A task of the event loop is a \<^verbatim>\<open>process_job\<close> coroutine that has not started, one that
  waits in \<^verbatim>\<open>gather\<close> with its three generation tasks (each still to run, or returned),
  or one that has ended.
\<close>

datatype gen = Pending string | Returned "error + string"

datatype task =
    Scheduled string string
  | Awaiting string gen gen gen
  | Finished

text \<open>
  The \<^verbatim>\<open>except Exception as e\<close> block:
  \<^verbatim>\<open>
  JOBS[job_id]["status"] = "error"
  JOBS[job_id]["result"] = {"error": str(e)}
  \<close>
  An exception raised here (the \<^verbatim>\<open>KeyError\<close> of an id that is not in the registry) ends the
  coroutine with that exception; the first assignment has then written nothing.
\<close>

definition on_exception :: "string \<Rightarrow> error \<Rightarrow> registry \<Rightarrow> registry" where
  "on_exception job_id e J =
     (case set_status job_id Error J of
        Inl e' \<Rightarrow> J
      | Inr J1 \<Rightarrow>
          (case set_result job_id (JObj [(''error'', JStr (str e))]) J1 of
             Inl e' \<Rightarrow> J1
           | Inr J2 \<Rightarrow> J2))"

text \<open>
  Lines 66 to 111: the status becomes \<^verbatim>\<open>"processing"\<close>, the prompts are built, the three
  generation tasks are created and the coroutine suspends in \<^verbatim>\<open>gather\<close>.
\<close>

definition process_job_start :: "string \<Rightarrow> string \<Rightarrow> registry \<Rightarrow> registry \<times> task" where
  "process_job_start job_id content J =
     (case set_status job_id Processing J of
        Inl e \<Rightarrow> (on_exception job_id e J, Finished)
      | Inr J1 \<Rightarrow>
          (J1, Awaiting job_id (Pending (summary_prompt content))
                               (Pending (graph_prompt content))
                               (Pending (quiz_prompt content))))"

text \<open>One generation task runs: \<^verbatim>\<open>generate_with_gemini(prompt)\<close> from start to end.\<close>

fun run_gen :: "(string \<Rightarrow> error + string) \<Rightarrow> gen \<Rightarrow> gen" where
  "run_gen gemini (Pending prompt) = Returned (generate_with_gemini gemini prompt)"
| "run_gen gemini (Returned r) = Returned r"

text \<open>
  \<^verbatim>\<open>await asyncio.gather(summary_task, graph_task, quiz_task)\<close>: the awaiting coroutine is
  woken with the three results once all three tasks have returned, and with the exception
  as soon as one task has raised. \<open>None\<close>: not woken yet.
\<close>

fun raised :: "gen \<Rightarrow> error option" where
  "raised (Returned (Inl e)) = Some e"
| "raised g = None"

fun returned :: "gen \<Rightarrow> string option" where
  "returned (Returned (Inr text)) = Some text"
| "returned g = None"

definition gather :: "gen \<Rightarrow> gen \<Rightarrow> gen \<Rightarrow> (error + string \<times> string \<times> string) option" where
  "gather a b c =
     (case List.map_filter raised [a, b, c] of
        e # es \<Rightarrow> Some (Inl e)
      | [] \<Rightarrow>
          (case (returned a, returned b, returned c) of
             (Some x, Some y, Some z) \<Rightarrow> Some (Inr (x, y, z))
           | _ \<Rightarrow> None))"

text \<open>
  Lines 114 to 125 and the dict of lines 129 to 134: what the \<^verbatim>\<open>try\<close> body computes from the
  three generation results before it writes to the registry.
\<close>

definition process_job_result ::
    "(string \<Rightarrow> error + json) \<Rightarrow> (string \<Rightarrow> string \<Rightarrow> error + unit) \<Rightarrow>
     string \<Rightarrow> string \<Rightarrow> string \<Rightarrow> string \<Rightarrow> error + json" where
  "process_job_result loads gtts job_id summary_res graph_res quiz_res =
     (case extract_json loads graph_res of Inl e \<Rightarrow> Inl e | Inr g \<Rightarrow>
      case normalize_graph g of Inl e \<Rightarrow> Inl e | Inr graph_json \<Rightarrow>
      case extract_json loads quiz_res of Inl e \<Rightarrow> Inl e | Inr q \<Rightarrow>
      case normalize_quiz q of Inl e \<Rightarrow> Inl e | Inr quiz_json \<Rightarrow>
      case save_tts_mp3 gtts summary_res job_id of Inl e \<Rightarrow> Inl e | Inr audio_path \<Rightarrow>
        Inr (JObj [(''summary'', JStr summary_res),
                   (''graph'', graph_json),
                   (''quiz'', quiz_json),
                   (''audio_path'', JStr audio_path)]))"

text \<open>
  Lines 111 to 138: the coroutine is woken from \<^verbatim>\<open>gather\<close> with \<open>gathered\<close>, computes the
  result, then writes \<^verbatim>\<open>JOBS[job_id]["status"] = "done"\<close> and \<^verbatim>\<open>JOBS[job_id]["result"]\<close>;
  an exception at any of these points goes to the \<^verbatim>\<open>except\<close> block with the registry as
  it is at that point.
\<close>

definition process_job_resume ::
    "(string \<Rightarrow> error + json) \<Rightarrow> (string \<Rightarrow> string \<Rightarrow> error + unit) \<Rightarrow>
     string \<Rightarrow> error + string \<times> string \<times> string \<Rightarrow> registry \<Rightarrow> registry" where
  "process_job_resume loads gtts job_id gathered J =
     (case gathered of
        Inl e \<Rightarrow> on_exception job_id e J
      | Inr (summary_res, graph_res, quiz_res) \<Rightarrow>
          (case process_job_result loads gtts job_id summary_res graph_res quiz_res of
             Inl e \<Rightarrow> on_exception job_id e J
           | Inr r \<Rightarrow>
               (case set_status job_id Done J of
                  Inl e \<Rightarrow> on_exception job_id e J
                | Inr J1 \<Rightarrow>
                    (case set_result job_id r J1 of
                       Inl e \<Rightarrow> on_exception job_id e J1
                     | Inr J2 \<Rightarrow> J2))))"

section \<open>Endpoints\<close>

text \<open>
  The state of the process: the registry and the tasks the event loop holds, in the order
  of their creation.
\<close>

record state =
  JOBS :: registry
  tasks :: "task list"

definition init :: state where
  "init = \<lparr>JOBS = Map.empty, tasks = []\<rparr>"

text \<open>
  \<^verbatim>\<open>str.isspace\<close> on the characters a \<open>char\<close> can hold (code points below 256), and
  \<^verbatim>\<open>str.strip()\<close>, which removes leading and trailing whitespace.
\<close>

definition isspace :: "char \<Rightarrow> bool" where
  "isspace c \<longleftrightarrow>
     c \<in> {CHR 0x09, CHR 0x0A, CHR 0x0B, CHR 0x0C, CHR 0x0D, CHR 0x1C, CHR 0x1D, CHR 0x1E,
          CHR 0x1F, CHR 0x20, CHR 0x85, CHR 0xA0}"

definition strip :: "string \<Rightarrow> string" where
  "strip s = rev (dropWhile isspace (rev (dropWhile isspace s)))"

text \<open>
  \<^verbatim>\<open>
  @app.post("/process")
  async def process_endpoint(content: str = Form(...)):
      if not content.strip():
          raise HTTPException(status_code=400, detail="Content is required")
      job_id = str(uuid.uuid4())
      JOBS[job_id] = {"status": "queued", "result": None}
      asyncio.create_task(process_job(job_id, content))
      return {"job_id": job_id}
  \<close>
  The parameter declaration \<^verbatim>\<open>content: str = Form(...)\<close> makes the form field \<^verbatim>\<open>content\<close>
  required: the framework reads it from the request before the function is called, takes
  an empty value of a form field for a missing one, and answers a request whose field is
  missing with a validation error (status 422) without calling the function. \<open>Form\<close> is
  that step, on the field as the request has it (\<open>None\<close>: no such field).
\<close>

fun Form :: "string option \<Rightarrow> http_error + string" where
  "Form None = Inl RequestValidationError"
| "Form (Some v) = (if v = [] then Inl RequestValidationError else Inr v)"

text \<open>
  The body of the function. It has no \<^verbatim>\<open>await\<close>: it runs in one piece. \<open>uuid4\<close> is the
  string that \<^verbatim>\<open>str(uuid.uuid4())\<close> gives in this call.
\<close>

definition process_endpoint :: "string \<Rightarrow> string \<Rightarrow> state \<Rightarrow> (http_error + json) \<times> state" where
  "process_endpoint content uuid4 s =
     (if strip content = [] then (Inl (HTTPException 400 ''Content is required''), s)
      else
        (Inr (JObj [(''job_id'', JStr uuid4)]),
         s\<lparr>JOBS := (JOBS s)(uuid4 \<mapsto> \<lparr>status = Queued, result = JNull\<rparr>),
           tasks := tasks s @ [Scheduled uuid4 content]\<rparr>))"

text \<open>\<^verbatim>\<open>POST /process\<close>: the validation of the form field, then the function.\<close>

definition post_process :: "string option \<Rightarrow> string \<Rightarrow> state \<Rightarrow> (http_error + json) \<times> state" where
  "post_process field uuid4 s =
     (case Form field of
        Inl err \<Rightarrow> (Inl err, s)
      | Inr content \<Rightarrow> process_endpoint content uuid4 s)"

text \<open>
  \<^verbatim>\<open>
  @app.get("/hub/{job_id}")
  async def get_hub(job_id: str):
      entry = JOBS.get(job_id)
      if not entry:
          raise HTTPException(status_code=404, detail="Job not found")
      resp = {"status": entry["status"]}
      if entry["status"] == "done":
          res = entry["result"]
          resp["result"] = {
              "summary": res["summary"],
              "graph": res["graph"],
              "quiz": res["quiz"],
              "audio_url": f"/audio/{res['audio_path'].split('/')[-1]}" if res.get("audio_path") else None
          }
      elif entry["status"] == "error":
          resp["result"] = entry.get("result")
      return JSONResponse(resp)
  \<close>
  An entry is a dict of two keys, never empty, so \<^verbatim>\<open>not entry\<close> holds for a missing id
  only. \<open>done_payload\<close> is the dict built for a finished job; \<open>None\<close> stands for any
  exception of its lookups (a missing key, a result that is no dict, a path that is no
  string).

  \<^verbatim>\<open>JSONResponse(resp)\<close> renders its content when it is built, with
  \<^verbatim>\<open>json.dumps(..., allow_nan=False)\<close>, which raises \<^verbatim>\<open>ValueError\<close> for a float that is
  not finite; the decoder \<^verbatim>\<open>json.loads\<close> accepts \<^verbatim>\<open>NaN\<close> and \<^verbatim>\<open>Infinity\<close>, so a result can
  hold one. \<open>renderable\<close> says that a value has no such float. (The strings of this model
  are code points below 256, which always encode.) An exception that leaves the function
  is answered by the framework with status 500.
\<close>

definition last_segment :: "string \<Rightarrow> string" where
  "last_segment path = rev (takeWhile (\<lambda>c. c \<noteq> CHR ''/'') (rev path))"

fun audio_url :: "json \<Rightarrow> json option" where
  "audio_url (JStr path) =
     (if path \<noteq> [] then Some (JStr (''/audio/'' @ last_segment path)) else Some JNull)"
| "audio_url v = (if truthy v then None else Some JNull)"

fun done_payload :: "json \<Rightarrow> json option" where
  "done_payload (JObj res) =
     (case (map_of res ''summary'', map_of res ''graph'', map_of res ''quiz'') of
        (Some summary, Some graph, Some quiz) \<Rightarrow>
          (case audio_url (dict_get res ''audio_path'') of
             Some url \<Rightarrow>
               Some (JObj [(''summary'', summary), (''graph'', graph), (''quiz'', quiz),
                           (''audio_url'', url)])
           | None \<Rightarrow> None)
      | _ \<Rightarrow> None)"
| "done_payload v = None"

fun finite_float :: "pyfloat \<Rightarrow> bool" where
  "finite_float (Finite q) = True"
| "finite_float f = False"

fun renderable :: "json \<Rightarrow> bool" where
  "renderable (JFloat f) = finite_float f"
| "renderable (JArr xs) = (\<forall>x \<in> set xs. renderable x)"
| "renderable (JObj kvs) = (\<forall>v \<in> set (map snd kvs). renderable v)"
| "renderable v = True"

definition JSONResponse :: "json \<Rightarrow> http_error + json" where
  "JSONResponse content = (if renderable content then Inr content else Inl InternalServerError)"

definition get_hub :: "string \<Rightarrow> state \<Rightarrow> http_error + json" where
  "get_hub job_id s =
     (case JOBS s job_id of
        None \<Rightarrow> Inl (HTTPException 404 ''Job not found'')
      | Some entry \<Rightarrow>
          (case status entry of
             Done \<Rightarrow>
               (case done_payload (result entry) of
                  None \<Rightarrow> Inl InternalServerError
                | Some r \<Rightarrow> JSONResponse (JObj [(''status'', JStr ''done''), (''result'', r)]))
           | Error \<Rightarrow> JSONResponse (JObj [(''status'', JStr ''error''), (''result'', result entry)])
           | st \<Rightarrow> JSONResponse (JObj [(''status'', JStr (status_str st))])))"

section \<open>The event loop\<close>

text \<open>
  What happens in the process, one uninterrupted piece at a time: a request to one of the
  two endpoints is handled, or the event loop runs a task up to its next suspension
  point. An event carries what the outside world contributes to it: the form field of a
  submission as the request has it and the identifier drawn for it, the behaviour of the generative service for a
  generation call, the behaviour of the speech library for the narration. An event that
  names a task which is not ready for it does not occur; \<open>step\<close> leaves the state as it
  is.
\<close>

datatype slot = Summary | Graph | Quiz

datatype event =
    Submit "string option" string
  | Poll string
  | Start nat
  | Generate nat slot "string \<Rightarrow> error + string"
  | Resume nat "string \<Rightarrow> string \<Rightarrow> error + unit"

fun generate :: "(string \<Rightarrow> error + string) \<Rightarrow> slot \<Rightarrow> task \<Rightarrow> task" where
  "generate gemini Summary (Awaiting job_id a b c) = Awaiting job_id (run_gen gemini a) b c"
| "generate gemini Graph (Awaiting job_id a b c) = Awaiting job_id a (run_gen gemini b) c"
| "generate gemini Quiz (Awaiting job_id a b c) = Awaiting job_id a b (run_gen gemini c)"
| "generate gemini k t = t"

fun step :: "(string \<Rightarrow> error + json) \<Rightarrow> event \<Rightarrow> state \<Rightarrow> state" where
  "step loads (Submit field uuid4) s = snd (post_process field uuid4 s)"
| "step loads (Poll job_id) s = s"
| "step loads (Start i) s =
     (if i < length (tasks s) then
        (case tasks s ! i of
           Scheduled job_id content \<Rightarrow>
             (case process_job_start job_id content (JOBS s) of
                (J, t) \<Rightarrow> s\<lparr>JOBS := J, tasks := (tasks s)[i := t]\<rparr>)
         | t \<Rightarrow> s)
      else s)"
| "step loads (Generate i k gemini) s =
     (if i < length (tasks s)
      then s\<lparr>tasks := (tasks s)[i := generate gemini k (tasks s ! i)]\<rparr>
      else s)"
| "step loads (Resume i gtts) s =
     (if i < length (tasks s) then
        (case tasks s ! i of
           Awaiting job_id a b c \<Rightarrow>
             (case gather a b c of
                None \<Rightarrow> s
              | Some gathered \<Rightarrow>
                  s\<lparr>JOBS := process_job_resume loads gtts job_id gathered (JOBS s),
                    tasks := (tasks s)[i := Finished]\<rparr>)
         | t \<Rightarrow> s)
      else s)"

fun run :: "(string \<Rightarrow> error + json) \<Rightarrow> event list \<Rightarrow> state \<Rightarrow> state" where
  "run loads [] s = s"
| "run loads (e # es) s = run loads es (step loads e s)"

text \<open>
  The content a submission creates a job with, if it creates one: the field passes the
  validation and the function does not reject it as blank. The identifiers drawn by
  \<^verbatim>\<open>uuid.uuid4()\<close> in a sequence of events, in order: the function draws one for each
  submission it accepts and none for a rejected one.
\<close>

definition submitted :: "string option \<Rightarrow> string option" where
  "submitted field =
     (case Form field of
        Inl err \<Rightarrow> None
      | Inr content \<Rightarrow> if strip content = [] then None else Some content)"

fun issued :: "event list \<Rightarrow> string list" where
  "issued [] = []"
| "issued (Submit field uuid4 # es) =
     (case submitted field of None \<Rightarrow> issued es | Some content \<Rightarrow> uuid4 # issued es)"
| "issued (e # es) = issued es"



section \<open>Invariants of the reachable states\<close>

text \<open>
  The job a task works for; what a task that has not ended may assume of its registry
  entry; and the shape of an entry: no result before a terminal status, the four
  fields of a finished job with \<^verbatim>\<open>"done"\<close>, the message alone with \<^verbatim>\<open>"error"\<close>.
\<close>

fun job_of :: "task \<Rightarrow> string option" where
  "job_of (Scheduled job_id content) = Some job_id"
| "job_of (Awaiting job_id a b c) = Some job_id"
| "job_of Finished = None"

fun consistent :: "registry \<Rightarrow> task \<Rightarrow> bool" where
  "consistent J (Scheduled job_id content) =
     (J job_id = Some \<lparr>status = Queued, result = JNull\<rparr>)"
| "consistent J (Awaiting job_id a b c) =
     (J job_id = Some \<lparr>status = Processing, result = JNull\<rparr>
      \<and> raised a = None \<and> raised b = None \<and> raised c = None)"
| "consistent J Finished = True"

fun well_formed :: "job \<Rightarrow> bool" where
  "well_formed entry =
     (case status entry of
        Queued \<Rightarrow> result entry = JNull
      | Processing \<Rightarrow> result entry = JNull
      | Done \<Rightarrow>
          (\<exists>summary graph quiz path. path \<noteq> [] \<and>
             result entry = JObj [(''summary'', JStr summary), (''graph'', graph),
                                  (''quiz'', quiz), (''audio_path'', JStr path)])
      | Error \<Rightarrow> (\<exists>msg. result entry = JObj [(''error'', JStr msg)]))"

definition inv :: "state \<Rightarrow> bool" where
  "inv s \<longleftrightarrow>
     (\<forall>i < length (tasks s). consistent (JOBS s) (tasks s ! i))
     \<and> (\<forall>i < length (tasks s). \<forall>k < length (tasks s).
           i \<noteq> k \<longrightarrow> job_of (tasks s ! i) \<noteq> None \<longrightarrow> job_of (tasks s ! i) \<noteq> job_of (tasks s ! k))
     \<and> (\<forall>job_id entry. JOBS s job_id = Some entry \<longrightarrow> well_formed entry)"

text \<open>The entry a resumed \<^verbatim>\<open>process_job\<close> leaves, from what its \<^verbatim>\<open>try\<close> body computed.\<close>

fun committed :: "error + json \<Rightarrow> job" where
  "committed (Inr r) = \<lparr>status = Done, result = r\<rparr>"
| "committed (Inl e) = \<lparr>status = Error, result = JObj [(''error'', JStr (str e))]\<rparr>"

text \<open>The edges of the status state machine, and staying in place.\<close>

fun forward :: "status \<Rightarrow> status \<Rightarrow> bool" where
  "forward Queued st = (st = Queued \<or> st = Processing)"
| "forward Processing st = (st = Processing \<or> st = Done \<or> st = Error)"
| "forward Done st = (st = Done)"
| "forward Error st = (st = Error)"

text \<open>How far along the state machine a status is.\<close>

fun rank :: "status \<Rightarrow> nat" where
  "rank Queued = 0"
| "rank Processing = 1"
| "rank Done = 2"
| "rank Error = 2"

text \<open>
  The identifier of a submission is new to the registry (or the submission is rejected
  and draws none): what \<^verbatim>\<open>uuid.uuid4()\<close> is relied on for.
\<close>

fun fresh_for :: "state \<Rightarrow> event \<Rightarrow> bool" where
  "fresh_for s (Submit field uuid4) = (submitted field = None \<or> uuid4 \<notin> dom (JOBS s))"
| "fresh_for s e = True"

text \<open>
  For the runs in which the generative service fails: the content each task was
  submitted with (the accepted submissions in order, as the tasks are created), the
  prompt of a generation slot, and what a task of such a run looks like, every slot
  still holding its prompt or returned with \<^verbatim>\<open>"Error generating content"\<close>. \<open>fails_on\<close>
  says of an event that, if it runs a generation task of task \<open>i\<close>, the service raises
  for the prompt of that slot.
\<close>

fun contents :: "event list \<Rightarrow> string list" where
  "contents [] = []"
| "contents (Submit field uuid4 # es) =
     (case submitted field of None \<Rightarrow> contents es | Some content \<Rightarrow> content # contents es)"
| "contents (e # es) = contents es"

fun prompt_of :: "slot \<Rightarrow> string \<Rightarrow> string" where
  "prompt_of Summary content = summary_prompt content"
| "prompt_of Graph content = graph_prompt content"
| "prompt_of Quiz content = quiz_prompt content"

fun slot_ok :: "string \<Rightarrow> gen \<Rightarrow> bool" where
  "slot_ok prompt (Pending p) = (p = prompt)"
| "slot_ok prompt (Returned r) = (r = Inr ''Error generating content'')"

fun task_ok :: "string \<Rightarrow> task \<Rightarrow> bool" where
  "task_ok content (Scheduled job_id c) = (c = content)"
| "task_ok content (Awaiting job_id a b c) =
     (slot_ok (summary_prompt content) a \<and> slot_ok (graph_prompt content) b
      \<and> slot_ok (quiz_prompt content) c)"
| "task_ok content Finished = True"

fun fails_on :: "nat \<Rightarrow> string \<Rightarrow> event \<Rightarrow> bool" where
  "fails_on i content (Generate i' k gemini) = (i' \<noteq> i \<or> isl (gemini (prompt_of k content)))"
| "fails_on i content e = True"

section \<open>Collaborators of the examples\<close>

text \<open>A decoder that knows one object, for the examples of the extractor.\<close>

definition demo_loads :: "string \<Rightarrow> error + json" where
  \<open>demo_loads s =
     (if s = ''{"a": 1}'' then Inr (JObj [(''a'', JInt 1)]) else Inl (Exception ''Extra data''))\<close>

text \<open>
  A decoder that knows two objects with unusual field values, and a speech library that
  always succeeds, one that always fails.
\<close>

definition demo_loads_odd :: "string \<Rightarrow> error + json" where
  \<open>demo_loads_odd s =
     (if s = ''{"nodes": 5}'' then Inr (JObj [(''nodes'', JInt 5)])
      else if s = ''{"mcq": 0, "n": 1}'' then Inr (JObj [(''mcq'', JInt 0), (''n'', JInt 1)])
      else Inl (Exception ''Expecting value''))\<close>

definition gtts_ok :: "string \<Rightarrow> string \<Rightarrow> error + unit" where
  "gtts_ok text path = Inr ()"

definition gtts_down :: "string \<Rightarrow> string \<Rightarrow> error + unit" where
  "gtts_down text path = Inl (Exception ''Failed to connect'')"

text \<open>
  A generative service that is out of quota, and the events of one job up to the return of
  its three generation calls: submitted with the identifier \<^verbatim>\<open>id-1\<close>, started, and
  each generation task run against the failing service.
\<close>

definition gemini_down :: "string \<Rightarrow> error + string" where
  "gemini_down prompt = Inl (Exception ''429 quota exceeded'')"

definition demo_trace :: "event list" where
  "demo_trace =
     [Submit (Some ''hello'') ''id-1'', Start 0, Generate 0 Summary gemini_down,
      Generate 0 Graph gemini_down, Generate 0 Quiz gemini_down]"

text \<open>
  Two jobs whose events interleave: the service fails for every call of the first job
  and answers the one call made for the second.
\<close>

definition gemini_echo :: "string \<Rightarrow> error + string" where
  "gemini_echo prompt = Inr ''An answer.''"

definition demo_trace_two :: "event list" where
  "demo_trace_two =
     [Submit (Some ''hello'') ''id-1'', Submit (Some ''world'') ''id-2'', Start 1, Start 0,
      Generate 0 Summary gemini_down, Generate 1 Summary gemini_echo,
      Generate 0 Graph gemini_down, Poll ''id-1'', Generate 0 Quiz gemini_down]"

text \<open>
  A job whose graph comes back with a float that is not a number: the service answers
  the summary call, returns the graph below and fails the quiz call; the decoder knows
  that graph.
\<close>

definition gemini_nan :: "string \<Rightarrow> error + string" where
  \<open>gemini_nan prompt = Inr ''{"nodes": [NaN]}''\<close>

definition demo_loads_nan :: "string \<Rightarrow> error + json" where
  \<open>demo_loads_nan s =
     (if s = ''{"nodes": [NaN]}'' then Inr (JObj [(''nodes'', JArr [JFloat NaN])])
      else Inl (Exception ''Expecting value''))\<close>

definition demo_trace_nan :: "event list" where
  "demo_trace_nan =
     [Submit (Some ''hello'') ''id-1'', Start 0, Generate 0 Summary gemini_echo,
      Generate 0 Graph gemini_nan, Generate 0 Quiz gemini_down, Resume 0 gtts_ok]"

section \<open>The extractor's span\<close>

lemma star_close_none:
  "CHR ''}'' \<notin> set s \<Longrightarrow> match_at [AnyStar, Lit CHR ''}''] s = None"
  by (induction s) auto

lemma star_close_last:
  "CHR ''}'' \<notin> set post \<Longrightarrow>
   match_at [AnyStar, Lit CHR ''}''] (mid @ CHR ''}'' # post) = Some (mid @ [CHR ''}''])"
  by (induction mid) (auto simp: star_close_none)

lemma star_close_some:
  "match_at [AnyStar, Lit CHR ''}''] s = Some m \<Longrightarrow>
   \<exists>mid post. s = mid @ CHR ''}'' # post \<and> CHR ''}'' \<notin> set post \<and> m = mid @ [CHR ''}'']"
proof (induction s arbitrary: m)
  case Nil
  then show ?case by simp
next
  case (Cons x xs)
  show ?case
  proof (cases "match_at [AnyStar, Lit CHR ''}''] xs")
    case None
    with Cons.prems have x: "x = CHR ''}''" and m: "m = [CHR ''}'']"
      by (auto split: if_splits)
    have "CHR ''}'' \<notin> set xs"
    proof
      assume "CHR ''}'' \<in> set xs"
      then obtain a b where "xs = a @ CHR ''}'' # b" "CHR ''}'' \<notin> set b"
        by (auto dest: split_list_last)
      with None show False by (simp add: star_close_last)
    qed
    with x m have "x # xs = [] @ CHR ''}'' # xs \<and> CHR ''}'' \<notin> set xs \<and> m = [] @ [CHR ''}'']"
      by simp
    then show ?thesis by blast
  next
    case (Some m')
    with Cons.prems have m: "m = x # m'" by simp
    from Cons.IH [OF Some] obtain mid post where
      "xs = mid @ CHR ''}'' # post" "CHR ''}'' \<notin> set post" "m' = mid @ [CHR ''}'']"
      by blast
    with m have "x # xs = (x # mid) @ CHR ''}'' # post \<and> CHR ''}'' \<notin> set post
        \<and> m = (x # mid) @ [CHR ''}'']"
      by simp
    then show ?thesis by blast
  qed
qed

lemma brace_at_open:
  "match_at brace_re (CHR ''{'' # s) = map_option ((#) CHR ''{'') (match_at [AnyStar, Lit CHR ''}''] s)"
  by (simp add: brace_re_def)

lemma brace_at_other:
  "x \<noteq> CHR ''{'' \<Longrightarrow> match_at brace_re (x # s) = None"
  by (simp add: brace_re_def)

lemma brace_at_nil: "match_at brace_re [] = None"
  by (simp add: brace_re_def)

lemma re_search_no_open:
  "CHR ''{'' \<notin> set s \<Longrightarrow> re_search brace_re s = None"
  by (induction s) (auto simp: brace_at_nil brace_at_other)

lemma re_search_skip:
  "CHR ''{'' \<notin> set pre \<Longrightarrow> re_search brace_re (pre @ s) = re_search brace_re s"
  by (induction pre) (auto simp: brace_at_other)

lemma re_search_open:
  "re_search brace_re (CHR ''{'' # s) =
     map_option ((#) CHR ''{'') (match_at [AnyStar, Lit CHR ''}''] s)"
proof (cases "match_at [AnyStar, Lit CHR ''}''] s")
  case None
  have "CHR ''}'' \<notin> set s"
  proof
    assume "CHR ''}'' \<in> set s"
    then obtain a b where "s = a @ CHR ''}'' # b" "CHR ''}'' \<notin> set b"
      by (auto dest: split_list_last)
    with None show False by (simp add: star_close_last)
  qed
  have none_after: "re_search brace_re t = None" if "CHR ''}'' \<notin> set t" for t
    using that
  proof (induction t)
    case Nil
    then show ?case by (simp add: brace_at_nil)
  next
    case (Cons y ys)
    then show ?case
      by (cases "y = CHR ''{''") (auto simp: brace_at_open brace_at_other star_close_none)
  qed
  from None none_after [OF \<open>CHR ''}'' \<notin> set s\<close>] show ?thesis
    by (simp add: brace_at_open)
next
  case (Some m)
  then show ?thesis by (simp add: brace_at_open)
qed

lemma re_search_span:
  assumes "CHR ''{'' \<notin> set pre" and "CHR ''}'' \<notin> set post"
  shows "re_search brace_re (pre @ CHR ''{'' # mid @ CHR ''}'' # post)
           = Some (CHR ''{'' # mid @ [CHR ''}''])"
  using assms by (simp add: re_search_skip re_search_open star_close_last del: re_search.simps)

lemma re_search_some:
  assumes "re_search brace_re text = Some m"
  shows "\<exists>pre mid post. text = pre @ CHR ''{'' # mid @ CHR ''}'' # post
           \<and> CHR ''{'' \<notin> set pre \<and> CHR ''}'' \<notin> set post \<and> m = CHR ''{'' # mid @ [CHR ''}'']"
proof -
  have "CHR ''{'' \<in> set text"
    using assms re_search_no_open by fastforce
  then obtain pre s where split: "text = pre @ CHR ''{'' # s" and pre: "CHR ''{'' \<notin> set pre"
    by (auto dest: split_list_first)
  with assms have "map_option ((#) CHR ''{'') (match_at [AnyStar, Lit CHR ''}''] s) = Some m"
    by (simp add: re_search_skip re_search_open del: re_search.simps)
  then obtain m' where m': "match_at [AnyStar, Lit CHR ''}''] s = Some m'" and m: "m = CHR ''{'' # m'"
    by auto
  from star_close_some [OF m'] obtain mid post where
    "s = mid @ CHR ''}'' # post" "CHR ''}'' \<notin> set post" "m' = mid @ [CHR ''}'']"
    by blast
  with split pre m show ?thesis by auto
qed

section \<open>Steps of the event loop\<close>

lemma run_gen_no_raise: "raised a = None \<Longrightarrow> raised (run_gen gemini a) = None"
  by (cases a) (auto simp: generate_with_gemini_def split: sum.splits)

lemma gather_no_raise:
  assumes "raised a = None" "raised b = None" "raised c = None" "gather a b c = Some r"
  shows "\<exists>x y z. r = Inr (x, y, z)"
  using assms by (auto simp: gather_def List.map_filter_simps split: option.splits)

lemma job_update_both:
  "(entry :: job)\<lparr>status := st, result := r\<rparr> = \<lparr>status = st, result = r\<rparr>"
  by simp

lemma on_exception_present:
  "J job_id = Some entry \<Longrightarrow>
   on_exception job_id e J = J(job_id \<mapsto> committed (Inl e))"
  by (cases entry) (simp add: on_exception_def set_status_def set_result_def)

lemma process_job_resume_present:
  assumes "J job_id = Some entry"
  shows "process_job_resume loads gtts job_id (Inr (x, y, z)) J
           = J(job_id \<mapsto> committed (process_job_result loads gtts job_id x y z))"
  using assms
  by (cases "process_job_result loads gtts job_id x y z"; cases entry)
     (simp_all add: process_job_resume_def on_exception_present set_status_def set_result_def)

lemma process_job_start_present:
  assumes "J job_id = Some \<lparr>status = Queued, result = JNull\<rparr>"
  shows "process_job_start job_id content J =
           (J(job_id \<mapsto> \<lparr>status = Processing, result = JNull\<rparr>),
            Awaiting job_id (Pending (summary_prompt content)) (Pending (graph_prompt content))
              (Pending (quiz_prompt content)))"
  using assms by (simp add: process_job_start_def set_status_def)

lemma path_join_nonempty: "path_join a b \<noteq> []"
  by (auto simp: path_join_def split: list.split)

lemma process_job_result_shape:
  assumes "process_job_result loads gtts job_id x y z = Inr r"
  shows "\<exists>graph quiz path. path \<noteq> [] \<and>
           r = JObj [(''summary'', JStr x), (''graph'', graph), (''quiz'', quiz),
                     (''audio_path'', JStr path)]"
  using assms
  by (auto simp: process_job_result_def save_tts_mp3_def Let_def path_join_nonempty
           split: sum.splits)

lemma committed_well_formed:
  "well_formed (committed (process_job_result loads gtts job_id x y z))"
  by (cases "process_job_result loads gtts job_id x y z")
     (auto dest: process_job_result_shape)

lemma committed_terminal:
  "status (committed r) = Done \<or> status (committed r) = Error"
  by (cases r) simp_all

lemma step_submit:
  "step loads (Submit field uuid4) s =
     (case submitted field of
        None \<Rightarrow> s
      | Some content \<Rightarrow>
          s\<lparr>JOBS := (JOBS s)(uuid4 \<mapsto> \<lparr>status = Queued, result = JNull\<rparr>),
            tasks := tasks s @ [Scheduled uuid4 content]\<rparr>)"
  by (cases field) (simp_all add: post_process_def process_endpoint_def submitted_def)

lemma issued_single:
  "issued [Submit field uuid4] = (case submitted field of None \<Rightarrow> [] | Some content \<Rightarrow> [uuid4])"
  by (simp split: option.split)

lemma step_cases:
  assumes "inv s"
    and fresh: "fresh_for s e"
  obtains
    (idle) "step loads e s = s" "issued [e] = []"
  | (submit) field content uuid4 where "e = Submit field uuid4" "submitted field = Some content"
      "uuid4 \<notin> dom (JOBS s)"
      "step loads e s = s\<lparr>JOBS := (JOBS s)(uuid4 \<mapsto> \<lparr>status = Queued, result = JNull\<rparr>),
                            tasks := tasks s @ [Scheduled uuid4 content]\<rparr>"
  | (start) i job_id content where "e = Start i" "i < length (tasks s)"
      "tasks s ! i = Scheduled job_id content"
      "step loads e s = s\<lparr>JOBS := (JOBS s)(job_id \<mapsto> \<lparr>status = Processing, result = JNull\<rparr>),
                            tasks := (tasks s)[i := Awaiting job_id (Pending (summary_prompt content))
                               (Pending (graph_prompt content)) (Pending (quiz_prompt content))]\<rparr>"
  | (generate) i k gemini job_id a b c a' b' c' where "e = Generate i k gemini"
      "i < length (tasks s)" "tasks s ! i = Awaiting job_id a b c"
      "raised a' = None" "raised b' = None" "raised c' = None"
      "step loads e s = s\<lparr>tasks := (tasks s)[i := Awaiting job_id a' b' c']\<rparr>"
  | (resume) i gtts job_id a b c x y z where "e = Resume i gtts" "i < length (tasks s)"
      "tasks s ! i = Awaiting job_id a b c" "gather a b c = Some (Inr (x, y, z))"
      "step loads e s = s\<lparr>JOBS := (JOBS s)(job_id \<mapsto> committed (process_job_result loads gtts job_id x y z)),
                            tasks := (tasks s)[i := Finished]\<rparr>"
proof (cases e)
  case (Submit field uuid4)
  show ?thesis
  proof (cases "submitted field")
    case None
    with Submit show ?thesis by (intro idle) (simp_all add: step_submit del: step.simps)
  next
    case (Some content)
    with Submit fresh show ?thesis
      by (intro submit [of field uuid4 content]) (simp_all add: step_submit del: step.simps)
  qed
next
  case (Poll job_id)
  then show ?thesis by (intro idle) simp_all
next
  case (Start i)
  show ?thesis
  proof (cases "i < length (tasks s)")
    case False
    with Start show ?thesis by (intro idle) simp_all
  next
    case True
    with assms(1) have con: "consistent (JOBS s) (tasks s ! i)" by (simp add: inv_def)
    show ?thesis
    proof (cases "tasks s ! i")
      case (Scheduled job_id content)
      with con have "JOBS s job_id = Some \<lparr>status = Queued, result = JNull\<rparr>" by simp
      with Start True Scheduled show ?thesis
        by (intro start [of i job_id content]) (simp_all add: process_job_start_present)
    next
      case (Awaiting job_id a b c)
      with Start True show ?thesis by (intro idle) simp_all
    next
      case Finished
      with Start True show ?thesis by (intro idle) simp_all
    qed
  qed
next
  case (Generate i k gemini)
  show ?thesis
  proof (cases "i < length (tasks s)")
    case False
    with Generate show ?thesis by (intro idle) simp_all
  next
    case True
    with assms(1) have con: "consistent (JOBS s) (tasks s ! i)" by (simp add: inv_def)
    show ?thesis
    proof (cases "tasks s ! i")
      case (Scheduled job_id content)
      with Generate True have "step loads e s = s"
        by (cases k) (simp_all add: list_update_same_conv)
      with Generate show ?thesis by (intro idle) simp_all
    next
      case (Awaiting job_id a b c)
      with con have nr: "raised a = None" "raised b = None" "raised c = None" by simp_all
      show ?thesis
      proof (cases k)
        case Summary
        with Generate True Awaiting nr show ?thesis
          by (intro generate [of i k gemini job_id a b c "run_gen gemini a" b c])
             (simp_all add: run_gen_no_raise)
      next
        case Graph
        with Generate True Awaiting nr show ?thesis
          by (intro generate [of i k gemini job_id a b c a "run_gen gemini b" c])
             (simp_all add: run_gen_no_raise)
      next
        case Quiz
        with Generate True Awaiting nr show ?thesis
          by (intro generate [of i k gemini job_id a b c a b "run_gen gemini c"])
             (simp_all add: run_gen_no_raise)
      qed
    next
      case Finished
      with Generate True have "step loads e s = s"
        by (cases k) (simp_all add: list_update_same_conv)
      with Generate show ?thesis by (intro idle) simp_all
    qed
  qed
next
  case (Resume i gtts)
  show ?thesis
  proof (cases "i < length (tasks s)")
    case False
    with Resume show ?thesis by (intro idle) simp_all
  next
    case True
    with assms(1) have con: "consistent (JOBS s) (tasks s ! i)" by (simp add: inv_def)
    show ?thesis
    proof (cases "tasks s ! i")
      case (Scheduled job_id content)
      with Resume True show ?thesis by (intro idle) simp_all
    next
      case (Awaiting job_id a b c)
      with con have nr: "raised a = None" "raised b = None" "raised c = None"
        and here: "JOBS s job_id = Some \<lparr>status = Processing, result = JNull\<rparr>" by simp_all
      show ?thesis
      proof (cases "gather a b c")
        case None
        with Resume True Awaiting show ?thesis by (intro idle) simp_all
      next
        case (Some r)
        from gather_no_raise [OF nr Some] obtain x y z where r: "r = Inr (x, y, z)" by blast
        with Resume True Awaiting Some here show ?thesis
          by (intro resume [of i gtts job_id a b c x y z])
             (simp_all add: process_job_resume_present)
      qed
    next
      case Finished
      with Resume True show ?thesis by (intro idle) simp_all
    qed
  qed
qed

section \<open>The invariant is kept\<close>

lemma consistent_other:
  "consistent J t \<Longrightarrow> job_of t \<noteq> Some job_id \<Longrightarrow> consistent (J(job_id \<mapsto> entry)) t"
  by (cases t) auto

lemma consistent_dom: "consistent J t \<Longrightarrow> job_of t = Some job_id \<Longrightarrow> job_id \<in> dom J"
  by (cases t) auto

lemma inv_init: "inv init"
  by (simp add: inv_def init_def)

lemma inv_move:
  assumes "inv s" and i: "i < length (tasks s)" and j: "job_of (tasks s ! i) = Some job_id"
    and wf': "well_formed entry"
    and con': "consistent ((JOBS s)(job_id \<mapsto> entry)) t'"
    and j': "job_of t' = Some job_id \<or> job_of t' = None"
  shows "inv (s\<lparr>JOBS := (JOBS s)(job_id \<mapsto> entry), tasks := (tasks s)[i := t']\<rparr>)"
proof -
  from assms(1) have con: "\<And>i. i < length (tasks s) \<Longrightarrow> consistent (JOBS s) (tasks s ! i)"
    and dis: "\<And>i k. i < length (tasks s) \<Longrightarrow> k < length (tasks s) \<Longrightarrow> i \<noteq> k \<Longrightarrow>
                job_of (tasks s ! i) \<noteq> None \<Longrightarrow> job_of (tasks s ! i) \<noteq> job_of (tasks s ! k)"
    and wf: "\<And>job_id entry. JOBS s job_id = Some entry \<Longrightarrow> well_formed entry"
    by (auto simp: inv_def)
  have other: "job_of (tasks s ! k) \<noteq> Some job_id" if "k < length (tasks s)" "k \<noteq> i" for k
    using dis [OF i that(1)] that(2) j by auto
  have c1: "consistent ((JOBS s)(job_id \<mapsto> entry)) ((tasks s)[i := t'] ! k)"
    if "k < length (tasks s)" for k
  proof (cases "k = i")
    case True
    with i con' show ?thesis by simp
  next
    case False
    with that con [OF that] other [OF that] show ?thesis
      by (simp add: consistent_other)
  qed
  have c2: "job_of ((tasks s)[i := t'] ! k) \<noteq> job_of ((tasks s)[i := t'] ! l)"
    if "k < length (tasks s)" "l < length (tasks s)" "k \<noteq> l"
       "job_of ((tasks s)[i := t'] ! k) \<noteq> None" for k l
  proof (cases "k = i")
    case True
    with that i j' have "job_of ((tasks s)[i := t'] ! k) = Some job_id" by auto
    moreover from True that other [of l] have "job_of ((tasks s)[i := t'] ! l) \<noteq> Some job_id"
      by auto
    ultimately show ?thesis by simp
  next
    case False
    show ?thesis
    proof (cases "l = i")
      case True
      with False that i j' other [of k] show ?thesis by auto
    next
      case l: False
      with False that dis [of k l] show ?thesis by simp
    qed
  qed
  have c3: "well_formed e'" if "((JOBS s)(job_id \<mapsto> entry)) job_id' = Some e'" for job_id' e'
    using that wf wf' by (auto split: if_splits)
  show ?thesis
    unfolding inv_def using c1 c2 c3 by simp
qed

lemma inv_step:
  assumes "inv s" and fresh: "fresh_for s e"
  shows "inv (step loads e s)"
proof -
  from assms(1) have con: "\<And>i. i < length (tasks s) \<Longrightarrow> consistent (JOBS s) (tasks s ! i)"
    and dis: "\<And>i k. i < length (tasks s) \<Longrightarrow> k < length (tasks s) \<Longrightarrow> i \<noteq> k \<Longrightarrow>
                job_of (tasks s ! i) \<noteq> None \<Longrightarrow> job_of (tasks s ! i) \<noteq> job_of (tasks s ! k)"
    and wf: "\<And>job_id entry. JOBS s job_id = Some entry \<Longrightarrow> well_formed entry"
    by (auto simp: inv_def)
  show ?thesis
  proof (rule step_cases [of s e loads, OF assms], goal_cases)
    case idle: 1
    with assms(1) show ?thesis by simp
  next
    case submit: (2 field content uuid4)
    have other: "job_of (tasks s ! i) \<noteq> Some uuid4" if "i < length (tasks s)" for i
      using consistent_dom [OF con [OF that]] submit(3) by auto
    show ?thesis
      unfolding inv_def submit(4)
    proof (intro conjI allI impI)
      fix i assume "i < length (tasks (s\<lparr>JOBS := (JOBS s)(uuid4 \<mapsto> \<lparr>status = Queued, result = JNull\<rparr>),
                            tasks := tasks s @ [Scheduled uuid4 content]\<rparr>))"
      then show "consistent (JOBS (s\<lparr>JOBS := (JOBS s)(uuid4 \<mapsto> \<lparr>status = Queued, result = JNull\<rparr>),
                            tasks := tasks s @ [Scheduled uuid4 content]\<rparr>))
          (tasks (s\<lparr>JOBS := (JOBS s)(uuid4 \<mapsto> \<lparr>status = Queued, result = JNull\<rparr>),
                            tasks := tasks s @ [Scheduled uuid4 content]\<rparr>) ! i)"
        using con other by (cases "i < length (tasks s)") (auto simp: nth_append intro: consistent_other)
    next
      fix i k
      assume "i < length (tasks (s\<lparr>JOBS := (JOBS s)(uuid4 \<mapsto> \<lparr>status = Queued, result = JNull\<rparr>),
                            tasks := tasks s @ [Scheduled uuid4 content]\<rparr>))"
         "k < length (tasks (s\<lparr>JOBS := (JOBS s)(uuid4 \<mapsto> \<lparr>status = Queued, result = JNull\<rparr>),
                            tasks := tasks s @ [Scheduled uuid4 content]\<rparr>))"
         "i \<noteq> k"
         "job_of (tasks (s\<lparr>JOBS := (JOBS s)(uuid4 \<mapsto> \<lparr>status = Queued, result = JNull\<rparr>),
                            tasks := tasks s @ [Scheduled uuid4 content]\<rparr>) ! i) \<noteq> None"
      then show "job_of (tasks (s\<lparr>JOBS := (JOBS s)(uuid4 \<mapsto> \<lparr>status = Queued, result = JNull\<rparr>),
                            tasks := tasks s @ [Scheduled uuid4 content]\<rparr>) ! i) \<noteq>
                 job_of (tasks (s\<lparr>JOBS := (JOBS s)(uuid4 \<mapsto> \<lparr>status = Queued, result = JNull\<rparr>),
                            tasks := tasks s @ [Scheduled uuid4 content]\<rparr>) ! k)"
        using dis [of i k] other [of i] other [of k]
        by (cases "i < length (tasks s)"; cases "k < length (tasks s)") (auto simp: nth_append)
    next
      fix job_id entry
      assume "JOBS (s\<lparr>JOBS := (JOBS s)(uuid4 \<mapsto> \<lparr>status = Queued, result = JNull\<rparr>),
                            tasks := tasks s @ [Scheduled uuid4 content]\<rparr>) job_id = Some entry"
      then show "well_formed entry"
        using wf by (auto split: if_splits)
    qed
  next
    case start: (3 i job_id content)
    have "inv (s\<lparr>JOBS := (JOBS s)(job_id \<mapsto> \<lparr>status = Processing, result = JNull\<rparr>),
                  tasks := (tasks s)[i := Awaiting job_id (Pending (summary_prompt content))
                               (Pending (graph_prompt content)) (Pending (quiz_prompt content))]\<rparr>)"
      using assms(1) start(2,3) by (intro inv_move) simp_all
    with start(4) show ?thesis by simp
  next
    case generate: (4 i k gemini job_id a b c a' b' c')
    from con [OF generate(2)] generate(3)
    have here: "JOBS s job_id = Some \<lparr>status = Processing, result = JNull\<rparr>" by simp
    have "inv (s\<lparr>JOBS := (JOBS s)(job_id \<mapsto> \<lparr>status = Processing, result = JNull\<rparr>),
                  tasks := (tasks s)[i := Awaiting job_id a' b' c']\<rparr>)"
      using assms(1) generate(2-6) by (intro inv_move) simp_all
    moreover from here have "(JOBS s)(job_id \<mapsto> \<lparr>status = Processing, result = JNull\<rparr>) = JOBS s"
      by (simp add: map_upd_triv)
    ultimately show ?thesis using generate(7) by simp
  next
    case resume: (5 i gtts job_id a b c x y z)
    have "inv (s\<lparr>JOBS := (JOBS s)(job_id \<mapsto> committed (process_job_result loads gtts job_id x y z)),
                  tasks := (tasks s)[i := Finished]\<rparr>)"
      using assms(1) resume(2,3) by (intro inv_move) (simp_all add: committed_well_formed del: well_formed.simps)
    with resume(5) show ?thesis by simp
  qed
qed

section \<open>Reachable states\<close>

lemma run_append: "run loads (xs @ ys) s = run loads ys (run loads xs s)"
  by (induction xs arbitrary: s) simp_all

lemma issued_append: "issued (xs @ ys) = issued xs @ issued ys"
  by (induction xs rule: issued.induct) (simp_all split: option.split)

lemma dom_set_status:
  assumes "set_status job_id st J = Inr J1"
  shows "dom J1 = dom J"
proof (cases "J job_id")
  case None
  with assms show ?thesis by (simp add: set_status_def)
next
  case (Some a)
  with assms have "J1 = J(job_id \<mapsto> a\<lparr>status := st\<rparr>)" by (simp add: set_status_def)
  moreover from Some have "job_id \<in> dom J" by blast
  ultimately show ?thesis by (simp add: insert_absorb)
qed

lemma dom_set_result:
  assumes "set_result job_id r J = Inr J1"
  shows "dom J1 = dom J"
proof (cases "J job_id")
  case None
  with assms show ?thesis by (simp add: set_result_def)
next
  case (Some a)
  with assms have "J1 = J(job_id \<mapsto> a\<lparr>result := r\<rparr>)" by (simp add: set_result_def)
  moreover from Some have "job_id \<in> dom J" by blast
  ultimately show ?thesis by (simp add: insert_absorb)
qed

lemma dom_on_exception: "dom (on_exception job_id e J) = dom J"
proof (cases "set_status job_id Error J")
  case (Inl e')
  then show ?thesis by (simp add: on_exception_def)
next
  case (Inr J1)
  then have d1: "dom J1 = dom J" by (rule dom_set_status)
  show ?thesis
  proof (cases "set_result job_id (JObj [(''error'', JStr (str e))]) J1")
    case (Inl e')
    with Inr d1 show ?thesis by (simp add: on_exception_def)
  next
    case Inr2: (Inr J2)
    then have "dom J2 = dom J1" by (rule dom_set_result)
    with Inr Inr2 d1 show ?thesis by (simp add: on_exception_def)
  qed
qed

lemma dom_process_job_start: "dom (fst (process_job_start job_id content J)) = dom J"
proof (cases "set_status job_id Processing J")
  case (Inl e)
  then show ?thesis by (simp add: process_job_start_def dom_on_exception)
next
  case (Inr J1)
  then have "dom J1 = dom J" by (rule dom_set_status)
  with Inr show ?thesis by (simp add: process_job_start_def)
qed

lemma dom_process_job_resume: "dom (process_job_resume loads gtts job_id g J) = dom J"
proof (cases g)
  case (Inl e)
  then show ?thesis by (simp add: process_job_resume_def dom_on_exception)
next
  case (Inr xyz)
  obtain x y z where xyz: "xyz = (x, y, z)" by (cases xyz)
  show ?thesis
  proof (cases "process_job_result loads gtts job_id x y z")
    case (Inl e)
    with Inr xyz show ?thesis by (simp add: process_job_resume_def dom_on_exception)
  next
    case res: (Inr r)
    show ?thesis
    proof (cases "set_status job_id Done J")
      case (Inl e)
      with Inr xyz res show ?thesis by (simp add: process_job_resume_def dom_on_exception)
    next
      case st: (Inr J1)
      then have d1: "dom J1 = dom J" by (rule dom_set_status)
      show ?thesis
      proof (cases "set_result job_id r J1")
        case (Inl e)
        with Inr xyz res st d1 show ?thesis
          by (simp add: process_job_resume_def dom_on_exception)
      next
        case rs: (Inr J2)
        then have "dom J2 = dom J1" by (rule dom_set_result)
        with Inr xyz res st rs d1 show ?thesis by (simp add: process_job_resume_def)
      qed
    qed
  qed
qed

lemma dom_step: "dom (JOBS (step loads e s)) = dom (JOBS s) \<union> set (issued [e])"
proof (cases e)
  case (Submit field uuid4)
  then show ?thesis
    by (cases "submitted field") (simp_all add: step_submit del: step.simps)
next
  case (Poll job_id)
  then show ?thesis by simp
next
  case (Start i)
  show ?thesis
  proof (cases "i < length (tasks s)")
    case False
    with Start show ?thesis by simp
  next
    case True
    show ?thesis
    proof (cases "tasks s ! i")
      case (Scheduled job_id content)
      obtain J t where Jt: "process_job_start job_id content (JOBS s) = (J, t)"
        by (cases "process_job_start job_id content (JOBS s)")
      with dom_process_job_start [of job_id content "JOBS s"] have "dom J = dom (JOBS s)" by simp
      with Start True Scheduled Jt show ?thesis by simp
    qed (use Start True in simp_all)
  qed
next
  case (Generate i k gemini)
  then show ?thesis by simp
next
  case (Resume i gtts)
  then show ?thesis
    by (simp add: dom_process_job_resume split: task.splits option.splits)
qed

lemma dom_run: "dom (JOBS (run loads tr s)) = dom (JOBS s) \<union> set (issued tr)"
proof (induction tr arbitrary: s)
  case Nil
  then show ?case by simp
next
  case (Cons e tr)
  have "issued (e # tr) = issued [e] @ issued tr"
    using issued_append [of "[e]" tr] by simp
  with Cons [of "step loads e s"] show ?case
    by (simp add: dom_step Un_assoc)
qed

lemma fresh_for_distinct:
  assumes "distinct (issued (tr @ [e]))" "dom (JOBS s) = set (issued tr)"
  shows "fresh_for s e"
  using assms by (cases e) (auto simp: issued_append split: option.splits)

lemma inv_run:
  assumes "distinct (issued tr)"
  shows "inv (run loads tr init)"
  using assms
proof (induction tr rule: rev_induct)
  case Nil
  then show ?case by (simp add: inv_init)
next
  case (snoc e tr)
  from snoc.prems have "distinct (issued tr)" by (simp add: issued_append)
  with snoc.IH have "inv (run loads tr init)" .
  moreover have "dom (JOBS (run loads tr init)) = set (issued tr)"
    by (simp add: dom_run init_def)
  with snoc.prems have "fresh_for (run loads tr init) e" by (rule fresh_for_distinct)
  ultimately show ?case by (simp add: run_append inv_step)
qed

lemma forward_step:
  assumes "inv s" "fresh_for s e" "JOBS s job_id = Some x"
  shows "\<exists>y. JOBS (step loads e s) job_id = Some y \<and> forward (status x) (status y)
           \<and> ((status x = Done \<or> status x = Error \<or> result x \<noteq> JNull) \<longrightarrow> y = x)"
proof -
  from assms(1) have con: "\<And>i. i < length (tasks s) \<Longrightarrow> consistent (JOBS s) (tasks s ! i)"
    by (auto simp: inv_def)
  have same: "forward (status x) (status x)" by (cases "status x") simp_all
  show ?thesis
  proof (rule step_cases [of s e loads, OF assms(1,2)], goal_cases)
    case idle: 1
    with assms(3) same show ?thesis by simp
  next
    case submit: (2 field content uuid4)
    with assms(3) same show ?thesis by auto
  next
    case start: (3 i job_id' content)
    from con [OF start(2)] start(3)
    have "JOBS s job_id' = Some \<lparr>status = Queued, result = JNull\<rparr>" by simp
    with assms(3) same start(4) show ?thesis by (cases "job_id' = job_id") auto
  next
    case generate: (4 i k gemini job_id' a b c a' b' c')
    with assms(3) same show ?thesis by simp
  next
    case resume: (5 i gtts job_id' a b c x' y' z')
    from con [OF resume(2)] resume(3)
    have "JOBS s job_id' = Some \<lparr>status = Processing, result = JNull\<rparr>" by simp
    with assms(3) same resume(5)
      committed_terminal [of "process_job_result loads gtts job_id' x' y' z'"]
    show ?thesis by (cases "job_id' = job_id") auto
  qed
qed


section \<open>Claims about the helpers\<close>

text \<open>
  Claim C3. For every input string the extractor takes the span from the first \<^verbatim>\<open>{\<close> to
  the last \<^verbatim>\<open>}\<close> and hands it to the decoder: it returns the decoded value when the
  decoder accepts the span, the empty mapping when the decoder rejects it or when the
  string has no such span (no \<^verbatim>\<open>{\<close> with a \<^verbatim>\<open>}\<close> after it), and it never raises.
\<close>

theorem extract_json_widest_span:
  "(\<exists>v. extract_json loads text = Inr v)
   \<and> (\<forall>pre mid post. text = pre @ CHR ''{'' # mid @ CHR ''}'' # post
          \<and> CHR ''{'' \<notin> set pre \<and> CHR ''}'' \<notin> set post \<longrightarrow>
        (\<forall>v. loads (CHR ''{'' # mid @ [CHR ''}'']) = Inr v \<longrightarrow> extract_json loads text = Inr v)
        \<and> (\<forall>e. loads (CHR ''{'' # mid @ [CHR ''}'']) = Inl e \<longrightarrow> extract_json loads text = Inr (JObj [])))
   \<and> ((\<nexists>pre mid post. text = pre @ CHR ''{'' # mid @ CHR ''}'' # post
          \<and> CHR ''{'' \<notin> set pre \<and> CHR ''}'' \<notin> set post) \<longrightarrow>
        extract_json loads text = Inr (JObj []))"
proof (intro conjI allI impI)
  show "\<exists>v. extract_json loads text = Inr v"
    by (simp add: extract_json_def split: option.split sum.split)
next
  fix pre mid post v
  assume "text = pre @ CHR ''{'' # mid @ CHR ''}'' # post \<and> CHR ''{'' \<notin> set pre \<and> CHR ''}'' \<notin> set post"
    and "loads (CHR ''{'' # mid @ [CHR ''}'']) = Inr v"
  then show "extract_json loads text = Inr v"
    by (simp add: extract_json_def re_search_span)
next
  fix pre mid post e
  assume "text = pre @ CHR ''{'' # mid @ CHR ''}'' # post \<and> CHR ''{'' \<notin> set pre \<and> CHR ''}'' \<notin> set post"
    and "loads (CHR ''{'' # mid @ [CHR ''}'']) = Inl e"
  then show "extract_json loads text = Inr (JObj [])"
    by (simp add: extract_json_def re_search_span)
next
  assume no: "\<nexists>pre mid post. text = pre @ CHR ''{'' # mid @ CHR ''}'' # post
          \<and> CHR ''{'' \<notin> set pre \<and> CHR ''}'' \<notin> set post"
  have "re_search brace_re text = None"
  proof (cases "re_search brace_re text")
    case None
    then show ?thesis .
  next
    case (Some m)
    from re_search_some [OF Some] no show ?thesis by blast
  qed
  then show "extract_json loads text = Inr (JObj [])"
    by (simp add: extract_json_def)
qed

text \<open>
  Three inputs: an object in prose (with a stray closing brace before it and an opening
  one after it), two objects whose widest span is not JSON, and a text with no span.
\<close>

theorem extract_json_widest_span_witness:
  \<open>extract_json demo_loads ''} Sure: {"a": 1} done {'' = Inr (JObj [(''a'', JInt 1)])
   \<and> extract_json demo_loads ''x {"a": 1} and {"a": 1} y'' = Inr (JObj [])
   \<and> extract_json demo_loads ''} no object'' = Inr (JObj [])\<close>
proof (intro conjI)
  show \<open>extract_json demo_loads ''} Sure: {"a": 1} done {'' = Inr (JObj [(''a'', JInt 1)])\<close>
    using extract_json_widest_span [of demo_loads \<open>''} Sure: {"a": 1} done {''\<close>, THEN conjunct2, THEN conjunct1,
      rule_format, of \<open>''} Sure: ''\<close> \<open>''"a": 1''\<close> \<open>'' done {''\<close>]
    by (simp add: demo_loads_def)
  show \<open>extract_json demo_loads ''x {"a": 1} and {"a": 1} y'' = Inr (JObj [])\<close>
    using extract_json_widest_span [of demo_loads \<open>''x {"a": 1} and {"a": 1} y''\<close>, THEN conjunct2, THEN conjunct1,
      rule_format, of \<open>''x ''\<close> \<open>''"a": 1} and {"a": 1''\<close> \<open>'' y''\<close>]
    by (simp add: demo_loads_def)
  have \<open>\<nexists>pre mid post. ''} no object'' = pre @ CHR ''{'' # mid @ CHR ''}'' # post
          \<and> CHR ''{'' \<notin> set pre \<and> CHR ''}'' \<notin> set post\<close>
  proof
    assume \<open>\<exists>pre mid post. ''} no object'' = pre @ CHR ''{'' # mid @ CHR ''}'' # post
          \<and> CHR ''{'' \<notin> set pre \<and> CHR ''}'' \<notin> set post\<close>
    then obtain pre mid post where \<open>''} no object'' = pre @ CHR ''{'' # mid @ CHR ''}'' # post\<close>
      by blast
    then have \<open>CHR ''{'' \<in> set ''} no object''\<close>
      by (metis in_set_conv_decomp)
    then show False by simp
  qed
  then show \<open>extract_json demo_loads ''} no object'' = Inr (JObj [])\<close>
    using extract_json_widest_span [of demo_loads \<open>''} no object''\<close>] by blast
qed

text \<open>
  Claim C5. For every prompt the generation client returns a text and never an
  exception: the fixed string \<^verbatim>\<open>"Error generating content"\<close> when the call to the
  service raises, the service's own text when it succeeds.
\<close>

theorem generate_with_gemini_never_raises:
  "(\<exists>text. generate_with_gemini gemini prompt = Inr text)
   \<and> (\<forall>e. gemini prompt = Inl e \<longrightarrow>
         generate_with_gemini gemini prompt = Inr ''Error generating content'')
   \<and> (\<forall>text. gemini prompt = Inr text \<longrightarrow> generate_with_gemini gemini prompt = Inr text)"
  by (cases "gemini prompt") (simp_all add: generate_with_gemini_def)

text \<open>A service that is out of quota, and one that answers.\<close>

theorem generate_with_gemini_never_raises_witness:
  "generate_with_gemini (\<lambda>p. Inl (Exception ''quota exceeded'')) ''Summarize: x'' = Inr ''Error generating content''
   \<and> generate_with_gemini (\<lambda>p. Inr (''echo '' @ p)) ''hi'' = Inr ''echo hi''"
  using generate_with_gemini_never_raises [of "\<lambda>p. Inl (Exception ''quota exceeded'')" "''Summarize: x''"]
    generate_with_gemini_never_raises [of "\<lambda>p. Inr (''echo '' @ p)" "''hi''"]
  by simp

section \<open>Normalization, rejected submissions, unknown jobs\<close>

lemma map_of_dict_set: "map_of (dict_set key v kvs) = (map_of kvs)(key \<mapsto> v)"
  by (induction kvs) (auto simp: fun_eq_iff)

lemma dict_get_dict_set:
  "dict_get (dict_set key v kvs) k = (if k = key then v else dict_get kvs k)"
  by (simp add: dict_get_def map_of_dict_set)

lemma truthy_present: "truthy (dict_get kvs key) \<Longrightarrow> map_of kvs key = Some (dict_get kvs key)"
  by (cases "map_of kvs key") (simp_all add: dict_get_def)

lemma normalize_quiz_fields:
  "\<exists>kvs'. normalize_quiz (JObj kvs) = Inr (JObj kvs')
     \<and> dict_get kvs' ''mcq'' =
         (if truthy (dict_get kvs ''mcq'') then dict_get kvs ''mcq'' else JArr [])
     \<and> dict_get kvs' ''flashcards'' =
         (if truthy (dict_get kvs ''flashcards'') then dict_get kvs ''flashcards'' else JArr [])
     \<and> (\<forall>k. k \<noteq> ''mcq'' \<and> k \<noteq> ''flashcards'' \<longrightarrow> map_of kvs' k = map_of kvs k)
     \<and> (truthy (dict_get kvs ''mcq'') \<and> truthy (dict_get kvs ''flashcards'') \<longrightarrow> kvs' = kvs)"
  by (simp add: Let_def dict_get_dict_set map_of_dict_set)

text \<open>
  Claim C4, as amended. The orchestrator tests the truth value of a field, not its
  presence or its type. When the extracted graph mapping has no \<^verbatim>\<open>nodes\<close> or a
  \<^verbatim>\<open>nodes\<close> value that Python counts as false (\<^verbatim>\<open>None\<close>, \<^verbatim>\<open>False\<close>, zero, an empty string,
  sequence or mapping), the committed graph is exactly the fallback graph; otherwise the
  extracted mapping is committed as it is. Independently, \<^verbatim>\<open>mcq\<close> and \<^verbatim>\<open>flashcards\<close> of the
  committed quiz are the extracted values when these are true and the empty sequence
  otherwise; every other field of the quiz is passed through, and a quiz whose two fields
  are both true is committed unmodified.
\<close>

theorem normalization_by_truth_value:
  assumes "extract_json loads graph_res = Inr (JObj g)"
    and "extract_json loads quiz_res = Inr (JObj q)"
    and "process_job_result loads gtts job_id summary_res graph_res quiz_res = Inr r"
  shows "\<exists>q' path.
           r = JObj [(''summary'', JStr summary_res),
                     (''graph'', if truthy (dict_get g ''nodes'') then JObj g else fallback_graph),
                     (''quiz'', JObj q'),
                     (''audio_path'', JStr path)]
           \<and> dict_get q' ''mcq'' =
               (if truthy (dict_get q ''mcq'') then dict_get q ''mcq'' else JArr [])
           \<and> dict_get q' ''flashcards'' =
               (if truthy (dict_get q ''flashcards'') then dict_get q ''flashcards'' else JArr [])
           \<and> (\<forall>k. k \<noteq> ''mcq'' \<and> k \<noteq> ''flashcards'' \<longrightarrow> map_of q' k = map_of q k)
           \<and> (truthy (dict_get q ''mcq'') \<and> truthy (dict_get q ''flashcards'') \<longrightarrow> q' = q)"
proof -
  from normalize_quiz_fields [of q] obtain q' where
    nq: "normalize_quiz (JObj q) = Inr (JObj q')"
    and f: "dict_get q' ''mcq'' =
         (if truthy (dict_get q ''mcq'') then dict_get q ''mcq'' else JArr [])"
      "dict_get q' ''flashcards'' =
         (if truthy (dict_get q ''flashcards'') then dict_get q ''flashcards'' else JArr [])"
      "\<forall>k. k \<noteq> ''mcq'' \<and> k \<noteq> ''flashcards'' \<longrightarrow> map_of q' k = map_of q k"
      "truthy (dict_get q ''mcq'') \<and> truthy (dict_get q ''flashcards'') \<longrightarrow> q' = q"
    by blast
  from assms nq obtain path where
    "r = JObj [(''summary'', JStr summary_res),
               (''graph'', if truthy (dict_get g ''nodes'') then JObj g else fallback_graph),
               (''quiz'', JObj q'), (''audio_path'', JStr path)]"
    by (auto simp: process_job_result_def split: sum.splits)
  with f show ?thesis by blast
qed

text \<open>
  A graph whose \<^verbatim>\<open>nodes\<close> is a number and a quiz whose \<^verbatim>\<open>mcq\<close> is zero.
\<close>

theorem normalization_by_truth_value_witness:
  \<open>extract_json demo_loads_odd ''Here: {"nodes": 5}'' = Inr (JObj [(''nodes'', JInt 5)])
   \<and> extract_json demo_loads_odd ''{"mcq": 0, "n": 1}'' = Inr (JObj [(''mcq'', JInt 0), (''n'', JInt 1)])
   \<and> process_job_result demo_loads_odd gtts_ok ''j1'' ''A summary.'' ''Here: {"nodes": 5}'' ''{"mcq": 0, "n": 1}''
       = Inr (JObj [(''summary'', JStr ''A summary.''),
                    (''graph'', JObj [(''nodes'', JInt 5)]),
                    (''quiz'', JObj [(''mcq'', JArr []), (''n'', JInt 1), (''flashcards'', JArr [])]),
                    (''audio_path'', JStr ''generated/j1.mp3'')])
   \<and> (\<exists>q' path.
         JObj [(''summary'', JStr ''A summary.''),
               (''graph'', JObj [(''nodes'', JInt 5)]),
               (''quiz'', JObj [(''mcq'', JArr []), (''n'', JInt 1), (''flashcards'', JArr [])]),
               (''audio_path'', JStr ''generated/j1.mp3'')]
         = JObj [(''summary'', JStr ''A summary.''),
                 (''graph'', JObj [(''nodes'', JInt 5)]),
                 (''quiz'', JObj q'),
                 (''audio_path'', JStr path)]
         \<and> dict_get q' ''mcq'' = JArr [] \<and> dict_get q' ''flashcards'' = JArr []
         \<and> map_of q' ''n'' = Some (JInt 1))\<close>
proof -
  have a: \<open>extract_json demo_loads_odd ''Here: {"nodes": 5}'' = Inr (JObj [(''nodes'', JInt 5)])\<close>
    by (simp add: extract_json_def brace_re_def demo_loads_odd_def)
  have b: \<open>extract_json demo_loads_odd ''{"mcq": 0, "n": 1}'' = Inr (JObj [(''mcq'', JInt 0), (''n'', JInt 1)])\<close>
    by (simp add: extract_json_def brace_re_def demo_loads_odd_def)
  have c: \<open>process_job_result demo_loads_odd gtts_ok ''j1'' ''A summary.'' ''Here: {"nodes": 5}'' ''{"mcq": 0, "n": 1}''
       = Inr (JObj [(''summary'', JStr ''A summary.''),
                    (''graph'', JObj [(''nodes'', JInt 5)]),
                    (''quiz'', JObj [(''mcq'', JArr []), (''n'', JInt 1), (''flashcards'', JArr [])]),
                    (''audio_path'', JStr ''generated/j1.mp3'')])\<close>
    by (simp add: process_job_result_def a b dict_get_def save_tts_mp3_def gtts_ok_def
        path_join_def GENERATED_DIR_def Let_def)
  from normalization_by_truth_value [OF a b c] a b c show ?thesis
    by (auto simp: dict_get_def)
qed

text \<open>
  Claim C4 as the specification states it fails. The mapping \<^verbatim>\<open>{"nodes": 5}\<close> lacks a
  non-empty \<^verbatim>\<open>nodes\<close> sequence, yet it is committed as it is and not replaced by the
  fallback graph; and in the quiz \<^verbatim>\<open>{"mcq": 0, "n": 1}\<close> the field \<^verbatim>\<open>mcq\<close> is present, yet
  it is not passed through but replaced by the empty sequence.
\<close>

theorem normalization_claim_counterexample:
  "\<not> (\<exists>xs. map_of [(''nodes'', JInt 5)] ''nodes'' = Some (JArr xs) \<and> xs \<noteq> [])
   \<and> normalize_graph (JObj [(''nodes'', JInt 5)]) = Inr (JObj [(''nodes'', JInt 5)])
   \<and> normalize_graph (JObj [(''nodes'', JInt 5)]) \<noteq> Inr fallback_graph
   \<and> map_of [(''mcq'', JInt 0), (''n'', JInt 1)] ''mcq'' = Some (JInt 0)
   \<and> normalize_quiz (JObj [(''mcq'', JInt 0), (''n'', JInt 1)])
       = Inr (JObj [(''mcq'', JArr []), (''n'', JInt 1), (''flashcards'', JArr [])])"
  by (simp add: dict_get_def fallback_graph_def Let_def)

lemma strip_blank: "strip content = [] \<longleftrightarrow> (\<forall>c \<in> set content. isspace c)"
proof
  assume "strip content = []"
  then have all: "\<forall>c \<in> set (dropWhile isspace content). isspace c"
    by (simp add: strip_def dropWhile_eq_Nil_conv)
  have "dropWhile isspace content = []"
  proof (rule ccontr)
    assume ne: "dropWhile isspace content \<noteq> []"
    then have "\<not> isspace (hd (dropWhile isspace content))" by (rule hd_dropWhile)
    moreover from ne have "hd (dropWhile isspace content) \<in> set (dropWhile isspace content)"
      by simp
    ultimately show False using all by blast
  qed
  then show "\<forall>c \<in> set content. isspace c" by (simp add: dropWhile_eq_Nil_conv)
next
  assume "\<forall>c \<in> set content. isspace c"
  then show "strip content = []" by (auto simp: strip_def dest: set_dropWhileD)
qed

text \<open>
  Claim C7, as amended. A submission whose content consists of whitespace only is
  rejected and creates no job, the state of the process, the registry with it, being
  what it was. The rejection is \<^verbatim>\<open>HTTPException(status_code=400, detail="Content is required")\<close>
  when the content is not empty. An empty content never reaches the function: the
  required form field takes it for missing and the request is answered with the
  validation error of status 422, as a request without the field is.
\<close>

theorem blank_submission_rejected:
  assumes "\<forall>c \<in> set content. isspace c"
  shows "post_process (Some content) uuid4 s =
           (Inl (if content = [] then RequestValidationError
                 else HTTPException 400 ''Content is required''), s)
         \<and> post_process None uuid4 s = (Inl RequestValidationError, s)
         \<and> status_code RequestValidationError = 422
         \<and> step loads (Submit (Some content) uuid4) s = s
         \<and> JOBS (step loads (Submit (Some content) uuid4) s) = JOBS s"
  using assms by (simp add: post_process_def process_endpoint_def strip_blank)

text \<open>
  A space, a tab and a newline; and the empty content.
\<close>

theorem blank_submission_rejected_witness:
  "isspace CHR '' '' \<and> isspace (CHR 0x09) \<and> isspace (CHR 0x0A)
   \<and> post_process (Some [CHR '' '', CHR 0x09, CHR 0x0A]) ''id-1'' init
        = (Inl (HTTPException 400 ''Content is required''), init)
   \<and> post_process (Some []) ''id-1'' init = (Inl RequestValidationError, init)
   \<and> JOBS (step demo_loads (Submit (Some [CHR '' '', CHR 0x09, CHR 0x0A]) ''id-1'') init) = JOBS init
   \<and> JOBS (step demo_loads (Submit (Some []) ''id-1'') init) = JOBS init"
proof -
  have sp: "\<forall>c \<in> set [CHR '' '', CHR 0x09, CHR 0x0A]. isspace c"
    by (simp add: isspace_def)
  have em: "\<forall>c \<in> set []. isspace c" by simp
  from blank_submission_rejected [OF sp, of "''id-1''" init demo_loads]
    blank_submission_rejected [OF em, of "''id-1''" init demo_loads] sp
  show ?thesis by simp
qed

text \<open>
  Claim C7 as the specification states it fails: the empty content is blank, and the
  submission is answered with status 422, not with the 400 of the function.
\<close>

theorem blank_submission_claim_counterexample:
  "list_all isspace []
   \<and> fst (post_process (Some []) ''id-1'' init) = Inl RequestValidationError
   \<and> status_code RequestValidationError = 422
   \<and> fst (post_process (Some []) ''id-1'' init) \<noteq> Inl (HTTPException 400 ''Content is required'')"
  by (simp add: post_process_def)

text \<open>
  Claim C9. After any sequence of events, polling an identifier that no accepted
  submission was given answers \<^verbatim>\<open>HTTPException(status_code=404, detail="Job not found")\<close>
  and nothing else: no status and no result.
\<close>

theorem unknown_job_not_found:
  assumes "job_id \<notin> set (issued tr)"
  shows "get_hub job_id (run loads tr init) = Inl (HTTPException 404 ''Job not found'')"
proof -
  have "dom (JOBS (run loads tr init)) = set (issued tr)"
    by (simp add: dom_run init_def)
  with assms have "JOBS (run loads tr init) job_id = None" by blast
  then show ?thesis by (simp add: get_hub_def)
qed

section \<open>The life of a job\<close>

lemma distinct_issued_prefix: "distinct (issued (xs @ ys)) \<Longrightarrow> distinct (issued xs)"
  by (simp add: issued_append)

lemma forward_rank: "forward a b \<Longrightarrow> rank a \<le> rank b"
  by (cases a; cases b) simp_all

lemma done_payload_fields:
  "done_payload (JObj [(''summary'', s), (''graph'', g), (''quiz'', q), (''audio_path'', JStr p)])
     = Some (JObj [(''summary'', s), (''graph'', g), (''quiz'', q),
                   (''audio_url'', if p \<noteq> [] then JStr (''/audio/'' @ last_segment p) else JNull)])"
  by (simp add: dict_get_def)

lemma get_hub_well_formed:
  assumes "JOBS s job_id = Some entry" "well_formed entry"
  shows "(status entry = Queued \<or> status entry = Processing \<longrightarrow>
            get_hub job_id s = Inr (JObj [(''status'', JStr (status_str (status entry)))]))
       \<and> (status entry = Error \<longrightarrow>
            (\<exists>msg. result entry = JObj [(''error'', JStr msg)]
               \<and> get_hub job_id s =
                   Inr (JObj [(''status'', JStr ''error''),
                              (''result'', JObj [(''error'', JStr msg)])])))
       \<and> (status entry = Done \<longrightarrow>
            (\<exists>summary graph quiz path.
               result entry = JObj [(''summary'', JStr summary), (''graph'', graph),
                                    (''quiz'', quiz), (''audio_path'', JStr path)]
               \<and> get_hub job_id s =
                   (if renderable graph \<and> renderable quiz
                    then Inr (JObj [(''status'', JStr ''done''),
                                    (''result'', JObj [(''summary'', JStr summary), (''graph'', graph),
                                                       (''quiz'', quiz),
                                                       (''audio_url'', JStr (''/audio/'' @ last_segment path))])])
                    else Inl InternalServerError)))"
proof (cases "status entry")
  case Done
  with assms(2) obtain summary graph quiz path where
    p: "path \<noteq> []"
    and r: "result entry = JObj [(''summary'', JStr summary), (''graph'', graph),
                          (''quiz'', quiz), (''audio_path'', JStr path)]"
    by auto
  from assms(1) Done p r have "get_hub job_id s =
                   (if renderable graph \<and> renderable quiz
                    then Inr (JObj [(''status'', JStr ''done''),
                                    (''result'', JObj [(''summary'', JStr summary), (''graph'', graph),
                                                       (''quiz'', quiz),
                                                       (''audio_url'', JStr (''/audio/'' @ last_segment path))])])
                    else Inl InternalServerError)"
    by (simp add: get_hub_def JSONResponse_def done_payload_fields del: done_payload.simps)
  with Done r show ?thesis by simp
next
  case Error
  with assms(2) obtain msg where "result entry = JObj [(''error'', JStr msg)]" by auto
  with assms(1) Error show ?thesis by (simp add: get_hub_def JSONResponse_def)
qed (use assms in \<open>auto simp: get_hub_def JSONResponse_def\<close>)

lemma well_formed_terminal:
  "well_formed entry \<Longrightarrow> (status entry = Done \<or> status entry = Error) = (result entry \<noteq> JNull)"
  by (cases "status entry") auto

lemma reachable_step:
  assumes "distinct (issued (tr @ [e]))"
  shows "inv (run loads tr init)" "fresh_for (run loads tr init) e"
    "inv (run loads (tr @ [e]) init)"
proof -
  from assms have "distinct (issued tr)" by (rule distinct_issued_prefix)
  then show "inv (run loads tr init)" by (rule inv_run)
  have "dom (JOBS (run loads tr init)) = set (issued tr)"
    by (simp add: dom_run init_def)
  with assms show "fresh_for (run loads tr init) e" by (rule fresh_for_distinct)
  from assms show "inv (run loads (tr @ [e]) init)" by (rule inv_run)
qed

lemma inv_entry: "inv s \<Longrightarrow> JOBS s job_id = Some entry \<Longrightarrow> well_formed entry"
  unfolding inv_def by blast

text \<open>
  Claim C1. In every state the process can be observed in (after any sequence of events
  whose submissions drew distinct identifiers), a job has a result exactly when its
  status is \<^verbatim>\<open>"done"\<close> or \<^verbatim>\<open>"error"\<close>, and a poll shows nothing else: the status alone for a
  queued or processing job; the status with the error payload for a failed one; for a
  finished one the status with the four result fields or, when the graph or the quiz
  holds a float that \<^verbatim>\<open>JSONResponse\<close> cannot render, the status 500 of the framework and
  no status of the job at all. Across one more event a result that is there stays what
  it is, and the result changes only in the event that takes the status from
  \<^verbatim>\<open>"processing"\<close> to \<^verbatim>\<open>"done"\<close> or \<^verbatim>\<open>"error"\<close>. The two assignments of lines 128 and 129
  (and of 137 and 138) have no \<^verbatim>\<open>await\<close> between them, so no request is served between
  them.
\<close>

theorem result_committed_with_terminal_status:
  assumes "distinct (issued (tr @ [e]))"
    and "JOBS (run loads tr init) job_id = Some entry"
  shows "((status entry = Done \<or> status entry = Error) = (result entry \<noteq> JNull))
       \<and> (status entry = Queued \<or> status entry = Processing \<longrightarrow>
            get_hub job_id (run loads tr init) =
              Inr (JObj [(''status'', JStr (status_str (status entry)))]))
       \<and> (status entry = Error \<longrightarrow>
            (\<exists>msg. result entry = JObj [(''error'', JStr msg)]
               \<and> get_hub job_id (run loads tr init) =
                   Inr (JObj [(''status'', JStr ''error''),
                              (''result'', JObj [(''error'', JStr msg)])])))
       \<and> (status entry = Done \<longrightarrow>
            (\<exists>summary graph quiz path.
               result entry = JObj [(''summary'', JStr summary), (''graph'', graph),
                                    (''quiz'', quiz), (''audio_path'', JStr path)]
               \<and> get_hub job_id (run loads tr init) =
                   (if renderable graph \<and> renderable quiz
                    then Inr (JObj [(''status'', JStr ''done''),
                                    (''result'', JObj [(''summary'', JStr summary), (''graph'', graph),
                                                       (''quiz'', quiz),
                                                       (''audio_url'', JStr (''/audio/'' @ last_segment path))])])
                    else Inl InternalServerError)))
       \<and> (\<exists>entry'. JOBS (run loads (tr @ [e]) init) job_id = Some entry'
             \<and> (result entry \<noteq> JNull \<longrightarrow> entry' = entry)
             \<and> (result entry' \<noteq> result entry \<longrightarrow>
                  status entry = Processing \<and> (status entry' = Done \<or> status entry' = Error)))"
proof -
  note r = reachable_step [OF assms(1), of loads]
  have wf: "well_formed entry" using r(1) assms(2) by (rule inv_entry)
  from forward_step [OF r(1) r(2) assms(2), of loads] obtain entry' where
    e': "JOBS (step loads e (run loads tr init)) job_id = Some entry'"
    and fw: "forward (status entry) (status entry')"
    and keep: "(status entry = Done \<or> status entry = Error \<or> result entry \<noteq> JNull) \<longrightarrow> entry' = entry"
    by blast
  from e' have e'': "JOBS (run loads (tr @ [e]) init) job_id = Some entry'"
    by (simp add: run_append)
  have wf': "well_formed entry'" using r(3) e'' by (rule inv_entry)
  have change: "status entry = Processing \<and> (status entry' = Done \<or> status entry' = Error)"
    if "result entry' \<noteq> result entry"
  proof -
    from that keep have null: "result entry = JNull" by auto
    with that have "result entry' \<noteq> JNull" by simp
    with well_formed_terminal [OF wf'] have t': "status entry' = Done \<or> status entry' = Error"
      by simp
    from null well_formed_terminal [OF wf] have "status entry \<noteq> Done" "status entry \<noteq> Error"
      by auto
    with fw t' have "status entry = Processing" by (cases "status entry") auto
    with t' show ?thesis by simp
  qed
  from e'' keep change have last: "\<exists>entry'. JOBS (run loads (tr @ [e]) init) job_id = Some entry'
             \<and> (result entry \<noteq> JNull \<longrightarrow> entry' = entry)
             \<and> (result entry' \<noteq> result entry \<longrightarrow>
                  status entry = Processing \<and> (status entry' = Done \<or> status entry' = Error))"
    by blast
  from well_formed_terminal [OF wf] get_hub_well_formed [OF assms(2) wf] last
  show ?thesis by blast
qed

lemma forward_run:
  assumes "distinct (issued (tr @ tr'))" "JOBS (run loads tr init) job_id = Some entry"
  shows "\<exists>entry'. JOBS (run loads (tr @ tr') init) job_id = Some entry'
           \<and> rank (status entry) \<le> rank (status entry')
           \<and> ((status entry = Done \<or> status entry = Error) \<longrightarrow> entry' = entry)"
  using assms(1)
proof (induction tr' rule: rev_induct)
  case Nil
  with assms(2) show ?case by simp
next
  case (snoc e tr')
  from snoc.prems have d: "distinct (issued ((tr @ tr') @ [e]))" by simp
  then have "distinct (issued (tr @ tr'))" by (rule distinct_issued_prefix)
  with snoc.IH obtain mid where
    mid: "JOBS (run loads (tr @ tr') init) job_id = Some mid"
    and rk: "rank (status entry) \<le> rank (status mid)"
    and ab: "(status entry = Done \<or> status entry = Error) \<longrightarrow> mid = entry"
    by blast
  note r = reachable_step [OF d, of loads]
  from forward_step [OF r(1) r(2) mid, of loads] obtain entry' where
    e': "JOBS (step loads e (run loads (tr @ tr') init)) job_id = Some entry'"
    and fw: "forward (status mid) (status entry')"
    and keep: "(status mid = Done \<or> status mid = Error \<or> result mid \<noteq> JNull) \<longrightarrow> entry' = mid"
    by blast
  from e' have "JOBS (run loads (tr @ tr' @ [e]) init) job_id = Some entry'"
    using run_append [of loads "tr @ tr'" "[e]" init] by simp
  moreover from rk forward_rank [OF fw] have "rank (status entry) \<le> rank (status entry')"
    by simp
  moreover from ab keep have "(status entry = Done \<or> status entry = Error) \<longrightarrow> entry' = entry"
    by auto
  ultimately show ?case by blast
qed

text \<open>
  Claim C8. Whatever event comes next, the status of a job stays what it is or follows
  an edge of \<^verbatim>\<open>queued -> processing -> {done, error}\<close> (\<open>forward\<close>); over any number of
  further events it never gets behind where it was (\<open>rank\<close>), and an entry whose status
  is \<^verbatim>\<open>"done"\<close> or \<^verbatim>\<open>"error"\<close> never changes again. The submissions are assumed to draw
  distinct identifiers.
\<close>

theorem status_moves_forward:
  assumes "distinct (issued (tr @ e # tr'))"
    and "JOBS (run loads tr init) job_id = Some entry"
  shows "(\<exists>next. JOBS (run loads (tr @ [e]) init) job_id = Some next
            \<and> forward (status entry) (status next))
       \<and> (\<exists>later. JOBS (run loads (tr @ e # tr') init) job_id = Some later
            \<and> rank (status entry) \<le> rank (status later)
            \<and> ((status entry = Done \<or> status entry = Error) \<longrightarrow> later = entry))"
proof -
  from assms(1) have "distinct (issued ((tr @ [e]) @ tr'))" by simp
  then have d: "distinct (issued (tr @ [e]))" by (rule distinct_issued_prefix)
  note r = reachable_step [OF d, of loads]
  from forward_step [OF r(1) r(2) assms(2), of loads]
  have one: "\<exists>next. JOBS (run loads (tr @ [e]) init) job_id = Some next
            \<and> forward (status entry) (status next)"
    by (auto simp: run_append)
  from forward_run [OF assms] one show ?thesis by blast
qed

section \<open>Failure and success of a run\<close>

lemma tts_failure_fails:
  assumes "gtts x (path_join GENERATED_DIR (job_id @ ''.mp3'')) = Inl e"
  shows "\<exists>e'. process_job_result loads gtts job_id x y z = Inl e'"
  using assms
  by (simp add: process_job_result_def save_tts_mp3_def split: sum.splits)

text \<open>
  Claim C2. When a \<^verbatim>\<open>process_job\<close> coroutine of a reachable state is woken from
  \<^verbatim>\<open>gather\<close>, it is woken with three texts (no generation task has raised), and the entry
  it leaves is \<open>committed\<close> of what its \<^verbatim>\<open>try\<close> body computed: for any exception \<open>e\<close> of
  the body the entry is status \<^verbatim>\<open>"error"\<close> with the result \<^verbatim>\<open>{"error": str(e)}\<close> and nothing
  else, no summary, graph, quiz or audio path; a narration that raises always ends so.
\<close>

theorem orchestration_failure_committed_as_error:
  assumes "distinct (issued tr)"
    and "i < length (tasks (run loads tr init))"
    and "tasks (run loads tr init) ! i = Awaiting job_id a b c"
    and "gather a b c = Some g"
  shows "\<exists>x y z. g = Inr (x, y, z)
           \<and> JOBS (step loads (Resume i gtts) (run loads tr init)) job_id
               = Some (committed (process_job_result loads gtts job_id x y z))
           \<and> (\<forall>e. process_job_result loads gtts job_id x y z = Inl e \<longrightarrow>
                 JOBS (step loads (Resume i gtts) (run loads tr init)) job_id
                   = Some \<lparr>status = Error, result = JObj [(''error'', JStr (str e))]\<rparr>)
           \<and> (\<forall>e. gtts x (path_join GENERATED_DIR (job_id @ ''.mp3'')) = Inl e \<longrightarrow>
                 (\<exists>e'. JOBS (step loads (Resume i gtts) (run loads tr init)) job_id
                   = Some \<lparr>status = Error, result = JObj [(''error'', JStr (str e'))]\<rparr>))"
proof -
  let ?s = "run loads tr init"
  from assms(1) have "inv ?s" by (rule inv_run)
  with assms(2) have "consistent (JOBS ?s) (tasks ?s ! i)" by (simp add: inv_def)
  with assms(3) have here: "JOBS ?s job_id = Some \<lparr>status = Processing, result = JNull\<rparr>"
    and nr: "raised a = None" "raised b = None" "raised c = None"
    by simp_all
  from gather_no_raise [OF nr assms(4)] obtain x y z where g: "g = Inr (x, y, z)" by blast
  from assms(2,3,4) g here
  have st: "JOBS (step loads (Resume i gtts) ?s) job_id
               = Some (committed (process_job_result loads gtts job_id x y z))"
    by (simp add: process_job_resume_present)
  have "JOBS (step loads (Resume i gtts) ?s) job_id
          = Some \<lparr>status = Error, result = JObj [(''error'', JStr (str e))]\<rparr>"
    if "process_job_result loads gtts job_id x y z = Inl e" for e
    using st that by simp
  moreover have "\<exists>e'. JOBS (step loads (Resume i gtts) ?s) job_id
          = Some \<lparr>status = Error, result = JObj [(''error'', JStr (str e'))]\<rparr>"
    if "gtts x (path_join GENERATED_DIR (job_id @ ''.mp3'')) = Inl e" for e
    using tts_failure_fails [of gtts x job_id e loads y z] that st by auto
  ultimately show ?thesis using g st by blast
qed







lemma extract_json_no_open:
  "CHR ''{'' \<notin> set text \<Longrightarrow> extract_json loads text = Inr (JObj [])"
  by (simp add: extract_json_def re_search_no_open)

text \<open>
  One run of \<^verbatim>\<open>process_job\<close> with nothing else happening in between: started, its three
  generation tasks run against a failing service, woken from \<^verbatim>\<open>gather\<close> with a narration
  that succeeds.
\<close>

lemma single_run_done:
  assumes "i < length (tasks s)"
    and "tasks s ! i = Scheduled job_id content"
    and "JOBS s job_id = Some entry"
    and "gs (summary_prompt content) = Inl e_s"
    and "gg (graph_prompt content) = Inl e_g"
    and "gq (quiz_prompt content) = Inl e_q"
    and "gtts ''Error generating content'' (path_join GENERATED_DIR (job_id @ ''.mp3'')) = Inr ()"
  shows "JOBS (run loads [Start i, Generate i Summary gs, Generate i Graph gg,
                          Generate i Quiz gq, Resume i gtts] s) job_id
           = Some \<lparr>status = Done,
                   result = JObj [(''summary'', JStr ''Error generating content''),
                                  (''graph'', fallback_graph),
                                  (''quiz'', JObj [(''mcq'', JArr []), (''flashcards'', JArr [])]),
                                  (''audio_path'', JStr (path_join GENERATED_DIR (job_id @ ''.mp3'')))]\<rparr>"
proof -
  define s1 where "s1 = step loads (Start i) s"
  define s2 where "s2 = step loads (Generate i Summary gs) s1"
  define s3 where "s3 = step loads (Generate i Graph gg) s2"
  define s4 where "s4 = step loads (Generate i Quiz gq) s3"
  obtain st r where entry: "entry = \<lparr>status = st, result = r\<rparr>" by (cases entry) auto
  have t1: "tasks s1 = (tasks s)[i := Awaiting job_id (Pending (summary_prompt content))
              (Pending (graph_prompt content)) (Pending (quiz_prompt content))]"
    and j1: "JOBS s1 job_id = Some \<lparr>status = Processing, result = r\<rparr>"
    using assms(1,2,3) entry
    by (simp_all add: s1_def process_job_start_def set_status_def)
  have len1: "i < length (tasks s1)" using assms(1) t1 by simp
  have t2: "tasks s2 ! i = Awaiting job_id (Returned (Inr ''Error generating content''))
              (Pending (graph_prompt content)) (Pending (quiz_prompt content))"
    and len2: "i < length (tasks s2)" and j2: "JOBS s2 = JOBS s1"
    using len1 t1 assms(1,4) by (simp_all add: s2_def generate_with_gemini_def)
  have t3: "tasks s3 ! i = Awaiting job_id (Returned (Inr ''Error generating content''))
              (Returned (Inr ''Error generating content'')) (Pending (quiz_prompt content))"
    and len3: "i < length (tasks s3)" and j3: "JOBS s3 = JOBS s1"
    using len2 t2 j2 assms(5) by (simp_all add: s3_def generate_with_gemini_def)
  have t4: "tasks s4 ! i = Awaiting job_id (Returned (Inr ''Error generating content''))
              (Returned (Inr ''Error generating content''))
              (Returned (Inr ''Error generating content''))"
    and len4: "i < length (tasks s4)" and j4: "JOBS s4 = JOBS s1"
    using len3 t3 j3 assms(6) by (simp_all add: s4_def generate_with_gemini_def)
  have g: "gather (Returned (Inr ''Error generating content''))
              (Returned (Inr ''Error generating content''))
              (Returned (Inr ''Error generating content''))
            = Some (Inr (''Error generating content'', ''Error generating content'',
                         ''Error generating content''))"
    by (simp add: gather_def List.map_filter_simps)
  have ex: "extract_json loads ''Error generating content'' = Inr (JObj [])"
    by (rule extract_json_no_open) simp
  have res: "process_job_result loads gtts job_id ''Error generating content''
               ''Error generating content'' ''Error generating content''
             = Inr (JObj [(''summary'', JStr ''Error generating content''),
                          (''graph'', fallback_graph),
                          (''quiz'', JObj [(''mcq'', JArr []), (''flashcards'', JArr [])]),
                          (''audio_path'', JStr (path_join GENERATED_DIR (job_id @ ''.mp3'')))])"
    using assms(7) by (simp add: process_job_result_def ex dict_get_def save_tts_mp3_def)
  have com: "JOBS (step loads (Resume i gtts) s4) job_id
          = Some (committed (process_job_result loads gtts job_id ''Error generating content''
               ''Error generating content'' ''Error generating content''))"
    using len4 t4 g j4 j1 by (simp add: process_job_resume_present)
  have all: "run loads [Start i, Generate i Summary gs, Generate i Graph gg,
                       Generate i Quiz gq, Resume i gtts] s
              = step loads (Resume i gtts) s4"
    by (simp only: run.simps s1_def s2_def s3_def s4_def)
  show ?thesis
    by (simp only: all com res committed.simps)
qed

section \<open>Runs in which the generative service fails\<close>

lemma contents_append: "contents (xs @ ys) = contents xs @ contents ys"
  by (induction xs rule: contents.induct) (simp_all split: option.split)

lemma length_contents_single: "length (contents [e]) \<le> 1"
  by (cases e) (simp_all split: option.split)

lemma length_tasks_step:
  "length (tasks (step loads e s)) = length (tasks s) + length (contents [e])"
proof (cases e)
  case (Submit field uuid4)
  then show ?thesis
    by (cases "submitted field") (simp_all add: step_submit del: step.simps)
next
  case (Start i)
  then show ?thesis by (simp split: task.splits prod.splits)
next
  case (Resume i gtts)
  then show ?thesis by (simp split: task.splits option.splits)
qed simp_all

lemma length_tasks_run:
  "length (tasks (run loads tr s)) = length (tasks s) + length (contents tr)"
proof (induction tr arbitrary: s)
  case Nil
  then show ?case by simp
next
  case (Cons e tr)
  have "contents (e # tr) = contents [e] @ contents tr"
    using contents_append [of "[e]" tr] by simp
  with Cons [of "step loads e s"] show ?case by (simp add: length_tasks_step)
qed

lemma slot_ok_run_gen:
  "slot_ok prompt a \<Longrightarrow> isl (gemini prompt) \<Longrightarrow> slot_ok prompt (run_gen gemini a)"
  by (cases a) (auto simp: generate_with_gemini_def isl_def)

lemma task_ok_generate:
  assumes "task_ok content t" "isl (gemini (prompt_of k content))"
  shows "task_ok content (generate gemini k t)"
  using assms by (cases t; cases k) (simp_all add: slot_ok_run_gen)

lemma task_ok_step:
  assumes "i < length (tasks s)" "task_ok content (tasks s ! i)" "fails_on i content e"
  shows "task_ok content (tasks (step loads e s) ! i)"
proof (cases e)
  case (Submit field uuid4)
  with assms show ?thesis
    by (cases "submitted field") (simp_all add: step_submit nth_append del: step.simps)
next
  case (Poll job_id)
  with assms show ?thesis by simp
next
  case (Start i')
  show ?thesis
  proof (cases "i' = i")
    case False
    with Start assms show ?thesis by (simp split: task.splits prod.splits)
  next
    case True
    show ?thesis
    proof (cases "tasks s ! i")
      case (Scheduled job_id c)
      with assms(2) have c: "c = content" by simp
      show ?thesis
      proof (cases "set_status job_id Processing (JOBS s)")
        case (Inl err)
        with Start True Scheduled assms(1) show ?thesis
          by (simp add: process_job_start_def)
      next
        case (Inr J1)
        with Start True Scheduled assms(1) c show ?thesis
          by (simp add: process_job_start_def)
      qed
    qed (use Start True assms in simp_all)
  qed
next
  case (Generate i' k gemini)
  show ?thesis
  proof (cases "i' = i")
    case False
    with Generate assms show ?thesis by simp
  next
    case True
    with Generate assms(3) have "isl (gemini (prompt_of k content))" by simp
    with assms(2) have "task_ok content (generate gemini k (tasks s ! i))"
      by (rule task_ok_generate)
    with Generate True assms(1) show ?thesis by simp
  qed
next
  case (Resume i' gtts)
  show ?thesis
  proof (cases "i' = i")
    case False
    with Resume assms show ?thesis by (simp split: task.splits option.splits)
  next
    case True
    with Resume assms show ?thesis by (auto split: task.splits option.splits)
  qed
qed

lemma task_ok_run:
  assumes "i < length (contents tr)" "\<forall>e \<in> set tr. fails_on i (contents tr ! i) e"
  shows "task_ok (contents tr ! i) (tasks (run loads tr init) ! i)"
  using assms
proof (induction tr rule: rev_induct)
  case Nil
  then show ?case by simp
next
  case (snoc e tr)
  have len: "length (tasks (run loads tr init)) = length (contents tr)"
    by (simp add: length_tasks_run init_def)
  show ?case
  proof (cases "i < length (contents tr)")
    case True
    then have same: "contents (tr @ [e]) ! i = contents tr ! i"
      by (simp add: contents_append nth_append)
    with snoc.prems(2) have "\<forall>e \<in> set tr. fails_on i (contents tr ! i) e"
      and last: "fails_on i (contents tr ! i) e"
      by simp_all
    with snoc.IH True have "task_ok (contents tr ! i) (tasks (run loads tr init) ! i)" by blast
    with True len last have "task_ok (contents tr ! i) (tasks (step loads e (run loads tr init)) ! i)"
      by (intro task_ok_step) simp_all
    with same show ?thesis by (simp add: run_append)
  next
    case False
    with snoc.prems(1) length_contents_single [of e]
    have new: "contents [e] \<noteq> []" and i: "i = length (contents tr)"
      by (auto simp: contents_append)
    then obtain field content uuid4 where e: "e = Submit field uuid4"
      and sub: "submitted field = Some content"
      by (cases e) (auto split: option.splits)
    with i len show ?thesis
      by (simp add: run_append contents_append step_submit nth_append del: step.simps)
  qed
qed

lemma slot_ok_returned:
  "slot_ok prompt a \<Longrightarrow> returned a = Some x \<Longrightarrow> x = ''Error generating content''"
  by (cases a) auto

lemma gather_returned:
  assumes "gather a b c = Some (Inr (x, y, z))"
  shows "returned a = Some x \<and> returned b = Some y \<and> returned c = Some z"
  using assms by (auto simp: gather_def split: list.splits option.splits)

text \<open>
  Claim C10. Take any reachable state (identifiers drawn distinct) in which the
  coroutine of task \<open>i\<close> is woken from \<^verbatim>\<open>gather\<close>, after a history in which every generation
  call of that task raised for its prompt, whatever else happened in between. If the
  narration of the text \<^verbatim>\<open>"Error generating content"\<close> succeeds, the job is committed with
  status \<^verbatim>\<open>"done"\<close>: the summary is that text, which is also what was narrated, the graph
  is the fallback graph and the quiz has two empty sequences.
\<close>

theorem generation_failures_still_done:
  assumes "distinct (issued tr)"
    and "i < length (tasks (run loads tr init))"
    and "tasks (run loads tr init) ! i = Awaiting job_id a b c"
    and "gather a b c = Some g"
    and "\<forall>e \<in> set tr. fails_on i (contents tr ! i) e"
    and "gtts ''Error generating content'' (path_join GENERATED_DIR (job_id @ ''.mp3'')) = Inr ()"
  shows "g = Inr (''Error generating content'', ''Error generating content'',
                  ''Error generating content'')
       \<and> JOBS (step loads (Resume i gtts) (run loads tr init)) job_id
           = Some \<lparr>status = Done,
                   result = JObj [(''summary'', JStr ''Error generating content''),
                                  (''graph'', fallback_graph),
                                  (''quiz'', JObj [(''mcq'', JArr []), (''flashcards'', JArr [])]),
                                  (''audio_path'', JStr (path_join GENERATED_DIR (job_id @ ''.mp3'')))]\<rparr>"
proof -
  let ?s = "run loads tr init"
  let ?E = "''Error generating content''"
  from assms(1) have "inv ?s" by (rule inv_run)
  with assms(2) have "consistent (JOBS ?s) (tasks ?s ! i)" by (simp add: inv_def)
  with assms(3) have here: "JOBS ?s job_id = Some \<lparr>status = Processing, result = JNull\<rparr>"
    and nr: "raised a = None" "raised b = None" "raised c = None"
    by simp_all
  from gather_no_raise [OF nr assms(4)] obtain x y z where g: "g = Inr (x, y, z)" by blast
  from assms(2) have "i < length (contents tr)" by (simp add: length_tasks_run init_def)
  from task_ok_run [OF this assms(5), of loads] assms(3)
  have ok: "slot_ok (summary_prompt (contents tr ! i)) a"
    "slot_ok (graph_prompt (contents tr ! i)) b" "slot_ok (quiz_prompt (contents tr ! i)) c"
    by simp_all
  from assms(4) g have "returned a = Some x \<and> returned b = Some y \<and> returned c = Some z"
    by (intro gather_returned) simp
  with ok have xyz: "x = ?E" "y = ?E" "z = ?E"
    by (auto dest: slot_ok_returned)
  have ex: "extract_json loads ?E = Inr (JObj [])"
    by (rule extract_json_no_open) simp
  have res: "process_job_result loads gtts job_id ?E ?E ?E
             = Inr (JObj [(''summary'', JStr ?E),
                          (''graph'', fallback_graph),
                          (''quiz'', JObj [(''mcq'', JArr []), (''flashcards'', JArr [])]),
                          (''audio_path'', JStr (path_join GENERATED_DIR (job_id @ ''.mp3'')))])"
    using assms(6) by (simp add: process_job_result_def ex dict_get_def save_tts_mp3_def)
  from assms(2,3,4) g xyz here
  have "JOBS (step loads (Resume i gtts) ?s) job_id
          = Some (committed (process_job_result loads gtts job_id ?E ?E ?E))"
    by (simp add: process_job_resume_present)
  with res g xyz show ?thesis by (simp only: committed.simps simp_thms)
qed

section \<open>One job, step by step\<close>

lemma strip_hello: "strip ''hello'' = ''hello''"
  by (simp add: strip_def isspace_def)

lemma issued_demo_trace: "issued demo_trace = [''id-1'']"
  by (simp add: demo_trace_def submitted_def strip_hello)

lemma demo_submitted:
  "run loads [Submit (Some ''hello'') ''id-1''] init =
     \<lparr>JOBS = [''id-1'' \<mapsto> \<lparr>status = Queued, result = JNull\<rparr>],
      tasks = [Scheduled ''id-1'' ''hello'']\<rparr>"
  by (simp add: post_process_def process_endpoint_def init_def strip_hello)

lemma demo_awaiting:
  "run loads demo_trace init =
     \<lparr>JOBS = [''id-1'' \<mapsto> \<lparr>status = Processing, result = JNull\<rparr>],
      tasks = [Awaiting ''id-1'' (Returned (Inr ''Error generating content''))
                 (Returned (Inr ''Error generating content''))
                 (Returned (Inr ''Error generating content''))]\<rparr>"
  by (simp add: demo_trace_def post_process_def process_endpoint_def init_def strip_hello process_job_start_def
      set_status_def generate_with_gemini_def gemini_down_def)

lemma gather_demo:
  "gather (Returned (Inr x)) (Returned (Inr y)) (Returned (Inr z)) = Some (Inr (x, y, z))"
  by (simp add: gather_def List.map_filter_simps)

lemma demo_failed:
  "run loads (demo_trace @ [Resume 0 gtts_down]) init =
     \<lparr>JOBS = [''id-1'' \<mapsto> \<lparr>status = Error,
                            result = JObj [(''error'', JStr ''Failed to connect'')]\<rparr>],
      tasks = [Finished]\<rparr>"
  by (simp add: run_append demo_awaiting gather_demo process_job_resume_def
      process_job_result_def extract_json_no_open dict_get_def save_tts_mp3_def gtts_down_def
      on_exception_def set_status_def set_result_def)

lemma demo_done:
  "run loads (demo_trace @ [Resume 0 gtts_ok]) init =
     \<lparr>JOBS = [''id-1'' \<mapsto> \<lparr>status = Done,
                result = JObj [(''summary'', JStr ''Error generating content''),
                               (''graph'', fallback_graph),
                               (''quiz'', JObj [(''mcq'', JArr []), (''flashcards'', JArr [])]),
                               (''audio_path'', JStr ''generated/id-1.mp3'')]\<rparr>],
      tasks = [Finished]\<rparr>"
  by (simp add: run_append demo_awaiting gather_demo process_job_resume_def
      process_job_result_def extract_json_no_open dict_get_def save_tts_mp3_def gtts_ok_def
      set_status_def set_result_def path_join_def GENERATED_DIR_def)

lemma demo_two_awaiting:
  "run loads demo_trace_two init =
     \<lparr>JOBS = [''id-1'' \<mapsto> \<lparr>status = Processing, result = JNull\<rparr>,
              ''id-2'' \<mapsto> \<lparr>status = Processing, result = JNull\<rparr>],
      tasks = [Awaiting ''id-1'' (Returned (Inr ''Error generating content''))
                 (Returned (Inr ''Error generating content''))
                 (Returned (Inr ''Error generating content'')),
               Awaiting ''id-2'' (Returned (Inr ''An answer.''))
                 (Pending (graph_prompt ''world'')) (Pending (quiz_prompt ''world''))]\<rparr>"
proof -
  have world: "strip ''world'' = ''world''" by (simp add: strip_def isspace_def)
  show ?thesis
    by (simp add: demo_trace_two_def post_process_def process_endpoint_def init_def strip_hello world
        process_job_start_def set_status_def generate_with_gemini_def gemini_down_def
        gemini_echo_def fun_upd_twist)
qed

lemma demo_nan_done:
  "run demo_loads_nan demo_trace_nan init =
     \<lparr>JOBS = [''id-1'' \<mapsto> \<lparr>status = Done,
                result = JObj [(''summary'', JStr ''An answer.''),
                               (''graph'', JObj [(''nodes'', JArr [JFloat NaN])]),
                               (''quiz'', JObj [(''mcq'', JArr []), (''flashcards'', JArr [])]),
                               (''audio_path'', JStr ''generated/id-1.mp3'')]\<rparr>],
      tasks = [Finished]\<rparr>"
proof -
  have before: \<open>run demo_loads_nan (butlast demo_trace_nan) init =
     \<lparr>JOBS = [''id-1'' \<mapsto> \<lparr>status = Processing, result = JNull\<rparr>],
      tasks = [Awaiting ''id-1'' (Returned (Inr ''An answer.''))
                 (Returned (Inr ''{"nodes": [NaN]}''))
                 (Returned (Inr ''Error generating content''))]\<rparr>\<close>
    by (simp add: demo_trace_nan_def post_process_def process_endpoint_def init_def strip_hello
        process_job_start_def set_status_def generate_with_gemini_def gemini_down_def
        gemini_echo_def gemini_nan_def)
  have graph: \<open>extract_json demo_loads_nan ''{"nodes": [NaN]}''
                 = Inr (JObj [(''nodes'', JArr [JFloat NaN])])\<close>
    by (simp add: extract_json_def brace_re_def demo_loads_nan_def)
  have split: "demo_trace_nan = butlast demo_trace_nan @ [Resume 0 gtts_ok]"
    by (simp add: demo_trace_nan_def)
  have "run demo_loads_nan (butlast demo_trace_nan @ [Resume 0 gtts_ok]) init =
     \<lparr>JOBS = [''id-1'' \<mapsto> \<lparr>status = Done,
                result = JObj [(''summary'', JStr ''An answer.''),
                               (''graph'', JObj [(''nodes'', JArr [JFloat NaN])]),
                               (''quiz'', JObj [(''mcq'', JArr []), (''flashcards'', JArr [])]),
                               (''audio_path'', JStr ''generated/id-1.mp3'')]\<rparr>],
      tasks = [Finished]\<rparr>"
    by (simp add: run_append before gather_demo process_job_resume_def process_job_result_def
        graph extract_json_no_open dict_get_def save_tts_mp3_def gtts_ok_def set_status_def
        set_result_def path_join_def GENERATED_DIR_def)
  with split show ?thesis by simp
qed

lemma issued_demo_trace_nan: "issued demo_trace_nan = [''id-1'']"
  by (simp add: demo_trace_nan_def submitted_def strip_hello)

text \<open>
  The job \<^verbatim>\<open>id-1\<close> observed while processing, after a failed narration, after a
  successful one followed by another submission, and finished with a graph that does
  not render.
\<close>

theorem result_committed_with_terminal_status_witness:
  "distinct (issued (demo_trace @ [Resume 0 gtts_ok]))
   \<and> JOBS (run demo_loads demo_trace init) ''id-1'' = Some \<lparr>status = Processing, result = JNull\<rparr>
   \<and> get_hub ''id-1'' (run demo_loads demo_trace init) = Inr (JObj [(''status'', JStr ''processing'')])
   \<and> distinct (issued ((demo_trace @ [Resume 0 gtts_down]) @ [Poll ''id-1'']))
   \<and> JOBS (run demo_loads (demo_trace @ [Resume 0 gtts_down]) init) ''id-1''
       = Some \<lparr>status = Error, result = JObj [(''error'', JStr ''Failed to connect'')]\<rparr>
   \<and> get_hub ''id-1'' (run demo_loads (demo_trace @ [Resume 0 gtts_down]) init)
       = Inr (JObj [(''status'', JStr ''error''),
                    (''result'', JObj [(''error'', JStr ''Failed to connect'')])])
   \<and> JOBS (run demo_loads ((demo_trace @ [Resume 0 gtts_down]) @ [Poll ''id-1'']) init) ''id-1''
       = Some \<lparr>status = Error, result = JObj [(''error'', JStr ''Failed to connect'')]\<rparr>
   \<and> distinct (issued ((demo_trace @ [Resume 0 gtts_ok]) @ [Submit (Some ''more'') ''id-2'']))
   \<and> JOBS (run demo_loads (demo_trace @ [Resume 0 gtts_ok]) init) ''id-1''
       = Some \<lparr>status = Done,
                result = JObj [(''summary'', JStr ''Error generating content''),
                               (''graph'', fallback_graph),
                               (''quiz'', JObj [(''mcq'', JArr []), (''flashcards'', JArr [])]),
                               (''audio_path'', JStr ''generated/id-1.mp3'')]\<rparr>
   \<and> get_hub ''id-1'' (run demo_loads (demo_trace @ [Resume 0 gtts_ok]) init)
       = Inr (JObj [(''status'', JStr ''done''),
                    (''result'', JObj [(''summary'', JStr ''Error generating content''),
                                       (''graph'', fallback_graph),
                                       (''quiz'', JObj [(''mcq'', JArr []), (''flashcards'', JArr [])]),
                                       (''audio_url'', JStr ''/audio/id-1.mp3'')])])
   \<and> JOBS (run demo_loads ((demo_trace @ [Resume 0 gtts_ok]) @ [Submit (Some ''more'') ''id-2'']) init) ''id-1''
       = JOBS (run demo_loads (demo_trace @ [Resume 0 gtts_ok]) init) ''id-1''
   \<and> distinct (issued (demo_trace_nan @ [Poll ''id-1'']))
   \<and> JOBS (run demo_loads_nan demo_trace_nan init) ''id-1''
       = Some \<lparr>status = Done,
                result = JObj [(''summary'', JStr ''An answer.''),
                               (''graph'', JObj [(''nodes'', JArr [JFloat NaN])]),
                               (''quiz'', JObj [(''mcq'', JArr []), (''flashcards'', JArr [])]),
                               (''audio_path'', JStr ''generated/id-1.mp3'')]\<rparr>
   \<and> get_hub ''id-1'' (run demo_loads_nan demo_trace_nan init) = Inl InternalServerError"
proof -
  have more: "strip ''more'' = ''more''" by (simp add: strip_def isspace_def)
  have d1: "distinct (issued (demo_trace @ [Resume 0 gtts_ok]))"
    by (simp add: issued_append issued_demo_trace)
  have j1: "JOBS (run demo_loads demo_trace init) ''id-1'' = Some \<lparr>status = Processing, result = JNull\<rparr>"
    by (simp add: demo_awaiting)
  have d2: "distinct (issued ((demo_trace @ [Resume 0 gtts_down]) @ [Poll ''id-1'']))"
    by (simp add: issued_append issued_demo_trace)
  have j2: "JOBS (run demo_loads (demo_trace @ [Resume 0 gtts_down]) init) ''id-1''
       = Some \<lparr>status = Error, result = JObj [(''error'', JStr ''Failed to connect'')]\<rparr>"
    by (simp add: demo_failed)
  have d3: "distinct (issued ((demo_trace @ [Resume 0 gtts_ok]) @ [Submit (Some ''more'') ''id-2'']))"
    by (simp add: issued_append issued_demo_trace submitted_def more)
  have j3: "JOBS (run demo_loads (demo_trace @ [Resume 0 gtts_ok]) init) ''id-1''
       = Some \<lparr>status = Done,
                result = JObj [(''summary'', JStr ''Error generating content''),
                               (''graph'', fallback_graph),
                               (''quiz'', JObj [(''mcq'', JArr []), (''flashcards'', JArr [])]),
                               (''audio_path'', JStr ''generated/id-1.mp3'')]\<rparr>"
    by (simp add: demo_done)
  have d4: "distinct (issued (demo_trace_nan @ [Poll ''id-1'']))"
    by (simp add: issued_append issued_demo_trace_nan)
  have j4: "JOBS (run demo_loads_nan demo_trace_nan init) ''id-1''
       = Some \<lparr>status = Done,
                result = JObj [(''summary'', JStr ''An answer.''),
                               (''graph'', JObj [(''nodes'', JArr [JFloat NaN])]),
                               (''quiz'', JObj [(''mcq'', JArr []), (''flashcards'', JArr [])]),
                               (''audio_path'', JStr ''generated/id-1.mp3'')]\<rparr>"
    by (simp add: demo_nan_done)
  from result_committed_with_terminal_status [OF d1 j1]
  have c1: "get_hub ''id-1'' (run demo_loads demo_trace init) = Inr (JObj [(''status'', JStr ''processing'')])"
    by simp
  from result_committed_with_terminal_status [OF d2 j2]
  have c2: "get_hub ''id-1'' (run demo_loads (demo_trace @ [Resume 0 gtts_down]) init)
       = Inr (JObj [(''status'', JStr ''error''),
                    (''result'', JObj [(''error'', JStr ''Failed to connect'')])])"
    and c2': "JOBS (run demo_loads ((demo_trace @ [Resume 0 gtts_down]) @ [Poll ''id-1'']) init) ''id-1''
       = Some \<lparr>status = Error, result = JObj [(''error'', JStr ''Failed to connect'')]\<rparr>"
    by auto
  from result_committed_with_terminal_status [OF d3 j3]
  have c3: "get_hub ''id-1'' (run demo_loads (demo_trace @ [Resume 0 gtts_ok]) init)
       = Inr (JObj [(''status'', JStr ''done''),
                    (''result'', JObj [(''summary'', JStr ''Error generating content''),
                                       (''graph'', fallback_graph),
                                       (''quiz'', JObj [(''mcq'', JArr []), (''flashcards'', JArr [])]),
                                       (''audio_url'', JStr ''/audio/id-1.mp3'')])])"
    and c3': "JOBS (run demo_loads ((demo_trace @ [Resume 0 gtts_ok]) @ [Submit (Some ''more'') ''id-2'']) init) ''id-1''
       = JOBS (run demo_loads (demo_trace @ [Resume 0 gtts_ok]) init) ''id-1''"
    by (auto simp: j3 fallback_graph_def last_segment_def)
  from result_committed_with_terminal_status [OF d4 j4]
  have c4: "get_hub ''id-1'' (run demo_loads_nan demo_trace_nan init) = Inl InternalServerError"
    by auto
  from d1 j1 c1 d2 j2 c2 c2' d3 j3 c3 c3' d4 j4 c4 show ?thesis by blast
qed
section \<open>Further examples\<close>

text \<open>
  The speech library is unreachable when the job \<^verbatim>\<open>id-1\<close> is woken from \<^verbatim>\<open>gather\<close>.
\<close>

theorem orchestration_failure_committed_as_error_witness:
  "distinct (issued demo_trace)
   \<and> 0 < length (tasks (run demo_loads demo_trace init))
   \<and> tasks (run demo_loads demo_trace init) ! 0
       = Awaiting ''id-1'' (Returned (Inr ''Error generating content''))
           (Returned (Inr ''Error generating content''))
           (Returned (Inr ''Error generating content''))
   \<and> gather (Returned (Inr ''Error generating content''))
         (Returned (Inr ''Error generating content''))
         (Returned (Inr ''Error generating content''))
       = Some (Inr (''Error generating content'', ''Error generating content'',
                    ''Error generating content''))
   \<and> gtts_down ''Error generating content'' (path_join GENERATED_DIR (''id-1'' @ ''.mp3''))
       = Inl (Exception ''Failed to connect'')
   \<and> process_job_result demo_loads gtts_down ''id-1'' ''Error generating content''
         ''Error generating content'' ''Error generating content''
       = Inl (Exception ''Failed to connect'')
   \<and> JOBS (step demo_loads (Resume 0 gtts_down) (run demo_loads demo_trace init)) ''id-1''
       = Some \<lparr>status = Error, result = JObj [(''error'', JStr ''Failed to connect'')]\<rparr>"
proof -
  have d: "distinct (issued demo_trace)" by (simp add: issued_demo_trace)
  have l: "0 < length (tasks (run demo_loads demo_trace init))" by (simp add: demo_awaiting)
  have t: "tasks (run demo_loads demo_trace init) ! 0
       = Awaiting ''id-1'' (Returned (Inr ''Error generating content''))
           (Returned (Inr ''Error generating content''))
           (Returned (Inr ''Error generating content''))"
    by (simp add: demo_awaiting)
  have g: "gather (Returned (Inr ''Error generating content''))
         (Returned (Inr ''Error generating content''))
         (Returned (Inr ''Error generating content''))
       = Some (Inr (''Error generating content'', ''Error generating content'',
                    ''Error generating content''))"
    by (rule gather_demo)
  have f: "gtts_down ''Error generating content'' (path_join GENERATED_DIR (''id-1'' @ ''.mp3''))
       = Inl (Exception ''Failed to connect'')"
    by (simp add: gtts_down_def)
  have r: "process_job_result demo_loads gtts_down ''id-1'' ''Error generating content''
         ''Error generating content'' ''Error generating content''
       = Inl (Exception ''Failed to connect'')"
    by (simp add: process_job_result_def extract_json_no_open dict_get_def save_tts_mp3_def
        gtts_down_def)
  from orchestration_failure_committed_as_error [OF d l t g, of gtts_down] r
  have "JOBS (step demo_loads (Resume 0 gtts_down) (run demo_loads demo_trace init)) ''id-1''
       = Some \<lparr>status = Error, result = JObj [(''error'', JStr ''Failed to connect'')]\<rparr>"
    by auto
  with d l t g f r show ?thesis by blast
qed


text \<open>
  From queued to processing; and a finished job on which a stale start and a stale
  wake-up are tried.
\<close>

theorem status_moves_forward_witness:
  "distinct (issued ([Submit (Some ''hello'') ''id-1''] @ Start 0 #
       [Generate 0 Summary gemini_down, Generate 0 Graph gemini_down,
        Generate 0 Quiz gemini_down, Resume 0 gtts_ok, Start 0, Resume 0 gtts_down]))
   \<and> JOBS (run demo_loads [Submit (Some ''hello'') ''id-1''] init) ''id-1''
       = Some \<lparr>status = Queued, result = JNull\<rparr>
   \<and> forward Queued Processing
   \<and> JOBS (run demo_loads ([Submit (Some ''hello'') ''id-1''] @ [Start 0]) init) ''id-1''
       = Some \<lparr>status = Processing, result = JNull\<rparr>
   \<and> distinct (issued ((demo_trace @ [Resume 0 gtts_ok]) @ Start 0 # [Resume 0 gtts_down]))
   \<and> status (the (JOBS (run demo_loads (demo_trace @ [Resume 0 gtts_ok]) init) ''id-1'')) = Done
   \<and> JOBS (run demo_loads ((demo_trace @ [Resume 0 gtts_ok]) @ Start 0 # [Resume 0 gtts_down]) init) ''id-1''
       = JOBS (run demo_loads (demo_trace @ [Resume 0 gtts_ok]) init) ''id-1''"
proof -
  have d1: "distinct (issued ([Submit (Some ''hello'') ''id-1''] @ Start 0 #
       [Generate 0 Summary gemini_down, Generate 0 Graph gemini_down,
        Generate 0 Quiz gemini_down, Resume 0 gtts_ok, Start 0, Resume 0 gtts_down]))"
    by (simp add: submitted_def strip_hello del: run.simps)
  have j1: "JOBS (run demo_loads [Submit (Some ''hello'') ''id-1''] init) ''id-1''
       = Some \<lparr>status = Queued, result = JNull\<rparr>"
    by (simp add: demo_submitted del: run.simps)
  have n1: "JOBS (run demo_loads ([Submit (Some ''hello'') ''id-1''] @ [Start 0]) init) ''id-1''
       = Some \<lparr>status = Processing, result = JNull\<rparr>"
    by (simp only: run_append demo_submitted) (simp add: process_job_start_def set_status_def)
  have d2: "distinct (issued ((demo_trace @ [Resume 0 gtts_ok]) @ Start 0 # [Resume 0 gtts_down]))"
    by (simp add: issued_append issued_demo_trace)
  have j2: "JOBS (run demo_loads (demo_trace @ [Resume 0 gtts_ok]) init) ''id-1''
       = Some \<lparr>status = Done,
                result = JObj [(''summary'', JStr ''Error generating content''),
                               (''graph'', fallback_graph),
                               (''quiz'', JObj [(''mcq'', JArr []), (''flashcards'', JArr [])]),
                               (''audio_path'', JStr ''generated/id-1.mp3'')]\<rparr>"
    by (simp add: demo_done)
  from status_moves_forward [OF d1 j1, THEN conjunct1] n1
  have f: "forward Queued Processing" by (auto simp del: run.simps)
  from status_moves_forward [OF d2 j2, THEN conjunct2]
  have k: "JOBS (run demo_loads ((demo_trace @ [Resume 0 gtts_ok]) @ Start 0 # [Resume 0 gtts_down]) init) ''id-1''
       = JOBS (run demo_loads (demo_trace @ [Resume 0 gtts_ok]) init) ''id-1''"
    using j2 by (auto simp del: run.simps)
  from j2 have s: "status (the (JOBS (run demo_loads (demo_trace @ [Resume 0 gtts_ok]) init) ''id-1'')) = Done"
    by simp
  from d1 j1 f n1 d2 s k show ?thesis by blast
qed

text \<open>
  An identifier never given out, with one job in the registry and with none.
\<close>

theorem unknown_job_not_found_witness:
  "''id-2'' \<notin> set (issued demo_trace)
   \<and> get_hub ''id-2'' (run demo_loads demo_trace init) = Inl (HTTPException 404 ''Job not found'')
   \<and> ''id-1'' \<notin> set (issued [])
   \<and> get_hub ''id-1'' (run demo_loads [] init) = Inl (HTTPException 404 ''Job not found'')"
proof -
  have a: "''id-2'' \<notin> set (issued demo_trace)" by (simp add: issued_demo_trace)
  have b: "''id-1'' \<notin> set (issued [])" by simp
  from unknown_job_not_found [OF a, of demo_loads] unknown_job_not_found [OF b, of demo_loads] a b
  show ?thesis by blast
qed

text \<open>
  Two jobs interleaved, the service failing for every call of the first; its narration
  succeeds.
\<close>

theorem generation_failures_still_done_witness:
  "distinct (issued demo_trace_two)
   \<and> 0 < length (tasks (run demo_loads demo_trace_two init))
   \<and> tasks (run demo_loads demo_trace_two init) ! 0
       = Awaiting ''id-1'' (Returned (Inr ''Error generating content''))
           (Returned (Inr ''Error generating content''))
           (Returned (Inr ''Error generating content''))
   \<and> gather (Returned (Inr ''Error generating content''))
         (Returned (Inr ''Error generating content''))
         (Returned (Inr ''Error generating content''))
       = Some (Inr (''Error generating content'', ''Error generating content'',
                    ''Error generating content''))
   \<and> contents demo_trace_two ! 0 = ''hello''
   \<and> list_all (fails_on 0 ''hello'') demo_trace_two
   \<and> gtts_ok ''Error generating content'' (path_join GENERATED_DIR (''id-1'' @ ''.mp3'')) = Inr ()
   \<and> JOBS (step demo_loads (Resume 0 gtts_ok) (run demo_loads demo_trace_two init)) ''id-1''
       = Some \<lparr>status = Done,
                result = JObj [(''summary'', JStr ''Error generating content''),
                               (''graph'', fallback_graph),
                               (''quiz'', JObj [(''mcq'', JArr []), (''flashcards'', JArr [])]),
                               (''audio_path'', JStr ''generated/id-1.mp3'')]\<rparr>"
proof -
  have world: "strip ''world'' = ''world''" by (simp add: strip_def isspace_def)
  have d: "distinct (issued demo_trace_two)"
    by (simp add: demo_trace_two_def submitted_def strip_hello world)
  have l: "0 < length (tasks (run demo_loads demo_trace_two init))"
    by (simp add: demo_two_awaiting)
  have t: "tasks (run demo_loads demo_trace_two init) ! 0
       = Awaiting ''id-1'' (Returned (Inr ''Error generating content''))
           (Returned (Inr ''Error generating content''))
           (Returned (Inr ''Error generating content''))"
    by (simp add: demo_two_awaiting)
  have g: "gather (Returned (Inr ''Error generating content''))
         (Returned (Inr ''Error generating content''))
         (Returned (Inr ''Error generating content''))
       = Some (Inr (''Error generating content'', ''Error generating content'',
                    ''Error generating content''))"
    by (rule gather_demo)
  have c: "contents demo_trace_two ! 0 = ''hello''"
    by (simp add: demo_trace_two_def submitted_def strip_hello)
  have f: "list_all (fails_on 0 ''hello'') demo_trace_two"
    by (simp add: demo_trace_two_def gemini_down_def)
  then have f': "\<forall>e \<in> set demo_trace_two. fails_on 0 (contents demo_trace_two ! 0) e"
    by (simp only: c list_all_iff)
  have ok: "gtts_ok ''Error generating content'' (path_join GENERATED_DIR (''id-1'' @ ''.mp3'')) = Inr ()"
    by (simp add: gtts_ok_def)
  have p: "path_join GENERATED_DIR (''id-1'' @ ''.mp3'') = ''generated/id-1.mp3''"
    by (simp add: path_join_def GENERATED_DIR_def)
  note fin = generation_failures_still_done [where gtts = gtts_ok and loads = demo_loads
      and tr = demo_trace_two and i = 0 and job_id = "''id-1''", OF d l t g f' ok,
      THEN conjunct2, unfolded p]
  from d l t g c f ok fin show ?thesis by blast
qed

end
